theory Spec2Isabelle
  imports Complex_Main "HOL-Library.Char_ord" "HOL-Library.List_Lexorder"
    "HOL-Library.Product_Lexorder"
begin

section \<open>Strings and numbers of the JavaScript runtime\<close>

text \<open>
  Callsigns are ASCII (the classifier's pattern admits letters, digits and the
  underscore only), so \<open>String.prototype.toUpperCase\<close> is the map of the letters
  \<open>a..z\<close> to \<open>A..Z\<close> that leaves every other character alone.
\<close>

definition toUpperCase_char :: "char \<Rightarrow> char" where
  "toUpperCase_char c =
     (let n = (of_char c :: nat) in if 97 \<le> n \<and> n \<le> 122 then char_of (n - 32) else c)"

definition toUpperCase :: "string \<Rightarrow> string" where
  "toUpperCase s = map toUpperCase_char s"

definition endsWith :: "string \<Rightarrow> string \<Rightarrow> bool" where
  "endsWith s suffix =
     (length suffix \<le> length s \<and> drop (length s - length suffix) s = suffix)"

definition startsWith :: "string \<Rightarrow> string \<Rightarrow> bool" where
  "startsWith s prefix = (take (length prefix) s = prefix)"

text \<open>The test \<open>callsign.toUpperCase().endsWith("_ATIS")\<close>, written out at every site of the source.\<close>

definition is_atis :: "string \<Rightarrow> bool" where
  "is_atis callsign = endsWith (toUpperCase callsign) ''_ATIS''"

text \<open>
  \<open>Math.round\<close> rounds to the nearest integer, a tie towards plus infinity. The
  quotient is taken in the reals: the doubles of the runtime are exact here for every
  time difference a session can have.
\<close>

definition Math_round :: "real \<Rightarrow> int" where
  "Math_round x = \<lfloor>x + 1 / 2\<rfloor>"

text \<open>\<open>Math.max(1, Math.round((end - start) / 60000))\<close>, on timestamps in milliseconds.\<close>

definition duration_minutes :: "int \<Rightarrow> int \<Rightarrow> int" where
  "duration_minutes start end = max 1 (Math_round (real_of_int (end - start) / 60000))"

section \<open>The ephemeral stores (lib/cache.ts)\<close>

datatype session_type = Controller | Pilot

text \<open>
  Timestamps are ISO strings in the cache files, as in the source; \<open>getTime\<close>, the
  runtime's \<open>new Date(iso).getTime()\<close>, is a parameter of every function that reads one.
\<close>

record CachedSession =
  cs_id :: string
  cs_type :: session_type
  cs_cid :: int
  cs_name :: string
  cs_callsign :: string
  cs_frequency :: "string option"
  cs_facility :: "string option"
  cs_departure :: "string option"
  cs_arrival :: "string option"
  cs_aircraft :: "string option"
  cs_startTime :: string
  cs_lastSeen :: string

record HistoricalSession =
  hs_id :: string
  hs_type :: session_type
  hs_cid :: int
  hs_name :: string
  hs_callsign :: string
  hs_frequency :: "string option"
  hs_facility :: "string option"
  hs_departure :: "string option"
  hs_arrival :: "string option"
  hs_aircraft :: "string option"
  hs_startTime :: string
  hs_endTime :: string
  hs_durationMinutes :: int
  hs_date :: string
  hs_removedAt :: "string option"

record Stats =
  totalControllerMinutes :: int
  totalPilotMinutes :: int
  totalControllerSessions :: int
  totalPilotSessions :: int

text \<open>
  \<open>SessionCache.sessions\<close> is a JavaScript object keyed by strings that are never
  integer-like (\<open>atc-...\<close>, \<open>pilot-...\<close>): \<open>Object.entries\<close> lists it in insertion order,
  so it is an association list with distinct keys, a new key going to the end.
\<close>

type_synonym session_map = "(string \<times> CachedSession) list"

definition set_lastSeen :: "string \<Rightarrow> string \<Rightarrow> session_map \<Rightarrow> session_map" where
  "set_lastSeen sid t ss =
     map (\<lambda>(k, v). if k = sid then (k, v\<lparr>cs_lastSeen := t\<rparr>) else (k, v)) ss"

definition delete_key :: "string \<Rightarrow> session_map \<Rightarrow> session_map" where
  "delete_key sid ss = filter (\<lambda>(k, v). k \<noteq> sid) ss"

section \<open>The durable store (the Prisma tables the source writes)\<close>

record ControllerSessionRow =
  ctl_cid :: "int option"
  ctl_callsign :: string
  ctl_name :: "string option"
  ctl_fir :: "string option"
  ctl_start :: int
  ctl_end :: int
  ctl_minutes :: int

record PilotSessionRow =
  plt_cid :: "int option"
  plt_callsign :: string
  plt_name :: "string option"
  plt_dep :: "string option"
  plt_arr :: "string option"
  plt_aircraft :: "string option"
  plt_fir :: "string option"
  plt_inPakistan :: bool
  plt_start :: int
  plt_end :: int
  plt_minutes :: int

datatype role = ATC | PILOT

record OpenSessionRow =
  os_id :: nat
  os_role :: role
  os_callsign :: string
  os_cid :: "int option"
  os_dep :: "string option"
  os_arr :: "string option"
  os_fir :: "string option"
  os_inPakistan :: bool
  os_startedAt :: int
  os_lastSeenAt :: int

record database =
  controllerSession :: "ControllerSessionRow list"
  pilotSession :: "PilotSessionRow list"
  openSession :: "OpenSessionRow list"

text \<open>
  What the process sees of the store: whether \<open>DATABASE_URL\<close> is set, whether
  \<open>prisma.$connect()\<close> succeeds, and whether a \<open>create\<close> succeeds.
\<close>

record db_env =
  database_url :: bool
  connect_ok :: bool
  create_ok :: bool

text \<open>JavaScript's \<open>x || null\<close> on a number and on an optional string.\<close>

definition num_or_null :: "int \<Rightarrow> int option" where
  "num_or_null n = (if n = 0 then None else Some n)"

definition str_or_null :: "string option \<Rightarrow> string option" where
  "str_or_null s = (case s of None \<Rightarrow> None | Some x \<Rightarrow> if x = [] then None else Some x)"

definition opt_startsWith :: "string option \<Rightarrow> string \<Rightarrow> bool" where
  "opt_startsWith s prefix = (case s of None \<Rightarrow> False | Some x \<Rightarrow> startsWith x prefix)"

text \<open>
  \<open>saveSessionToDatabase\<close>: nothing without \<open>DATABASE_URL\<close> or a connection; a
  controller session whose callsign ends in \<open>_ATIS\<close> returns before the insert; a
  failed insert is caught and logged.
\<close>

definition saveSessionToDatabase ::
  "(string \<Rightarrow> int) \<Rightarrow> db_env \<Rightarrow> HistoricalSession \<Rightarrow> database \<Rightarrow> database" where
  "saveSessionToDatabase getTime env session db =
     (if \<not> database_url env then db
      else if \<not> connect_ok env then db
      else if hs_type session = Controller then
        (if is_atis (hs_callsign session) then db
         else
           let fir = (if startsWith (hs_callsign session) ''OPKR_'' then Some ''OPKR''
                      else if startsWith (hs_callsign session) ''OPLR_'' then Some ''OPLR''
                      else None)
           in if \<not> create_ok env then db
              else db\<lparr>controllerSession := controllerSession db @
                     [\<lparr>ctl_cid = num_or_null (hs_cid session),
                       ctl_callsign = hs_callsign session,
                       ctl_name = None,
                       ctl_fir = fir,
                       ctl_start = getTime (hs_startTime session),
                       ctl_end = getTime (hs_endTime session),
                       ctl_minutes = hs_durationMinutes session\<rparr>]\<rparr>)
      else
        let inPakistan = (opt_startsWith (hs_departure session) ''OP''
                          \<or> opt_startsWith (hs_arrival session) ''OP'')
        in if \<not> create_ok env then db
           else db\<lparr>pilotSession := pilotSession db @
                  [\<lparr>plt_cid = num_or_null (hs_cid session),
                    plt_callsign = hs_callsign session,
                    plt_name = str_or_null (Some (hs_name session)),
                    plt_dep = str_or_null (hs_departure session),
                    plt_arr = str_or_null (hs_arrival session),
                    plt_aircraft = str_or_null (hs_aircraft session),
                    plt_fir = None,
                    plt_inPakistan = inPakistan,
                    plt_start = getTime (hs_startTime session),
                    plt_end = getTime (hs_endTime session),
                    plt_minutes = hs_durationMinutes session\<rparr>]\<rparr>)"

section \<open>The reconciliation: updateSessions\<close>

record controller_entry =
  c_cid :: int
  c_name :: string
  c_callsign :: string
  c_frequency :: string
  c_facility :: string

record pilot_entry =
  p_cid :: int
  p_name :: string
  p_callsign :: string
  p_departure :: string
  p_arrival :: string
  p_aircraft :: string

text \<open>
  The entries of \<open>added\<close>: the controller's callsign and name, or the pilot's callsign,
  departure, arrival and the timestamp (the source formats them into a message).
\<close>

datatype added_event =
  AddedController string string
  | AddedPilot string string string string

record tracking =
  t_sessions :: session_map
  t_added :: "added_event list"
  t_seenIds :: "string list"

definition track_controller :: "string \<Rightarrow> tracking \<Rightarrow> controller_entry \<Rightarrow> tracking" where
  "track_controller nowIso t c =
     (let sid = ''atc-'' @ c_callsign c;
          seen = sid # t_seenIds t
      in if map_of (t_sessions t) sid = None then
           \<lparr>t_sessions = t_sessions t @
              [(sid, \<lparr>cs_id = sid, cs_type = Controller, cs_cid = c_cid c, cs_name = c_name c,
                     cs_callsign = c_callsign c, cs_frequency = Some (c_frequency c),
                     cs_facility = Some (c_facility c), cs_departure = None,
                     cs_arrival = None, cs_aircraft = None,
                     cs_startTime = nowIso, cs_lastSeen = nowIso\<rparr>)],
            t_added = t_added t @ [AddedController (c_callsign c) (c_name c)],
            t_seenIds = seen\<rparr>
         else
           \<lparr>t_sessions = set_lastSeen sid nowIso (t_sessions t),
            t_added = t_added t,
            t_seenIds = seen\<rparr>)"

definition track_pilot :: "string \<Rightarrow> tracking \<Rightarrow> pilot_entry \<Rightarrow> tracking" where
  "track_pilot nowIso t p =
     (let sid = ''pilot-'' @ p_callsign p;
          seen = sid # t_seenIds t
      in if map_of (t_sessions t) sid = None then
           \<lparr>t_sessions = t_sessions t @
              [(sid, \<lparr>cs_id = sid, cs_type = Pilot, cs_cid = p_cid p, cs_name = p_name p,
                     cs_callsign = p_callsign p, cs_frequency = None, cs_facility = None,
                     cs_departure = Some (p_departure p), cs_arrival = Some (p_arrival p),
                     cs_aircraft = Some (p_aircraft p),
                     cs_startTime = nowIso, cs_lastSeen = nowIso\<rparr>)],
            t_added = t_added t @ [AddedPilot (p_callsign p) (p_departure p) (p_arrival p) nowIso],
            t_seenIds = seen\<rparr>
         else
           \<lparr>t_sessions = set_lastSeen sid nowIso (t_sessions t),
            t_added = t_added t,
            t_seenIds = seen\<rparr>)"

definition staleThreshold :: int where
  "staleThreshold = 2 * 60 * 1000"

text \<open>The historical record of a session that ended (lines 227 to 247 of the source).\<close>

definition to_historical :: "(string \<Rightarrow> int) \<Rightarrow> CachedSession \<Rightarrow> HistoricalSession" where
  "to_historical getTime session =
     \<lparr>hs_id = cs_id session @ ''-'' @ cs_startTime session,
      hs_type = cs_type session,
      hs_cid = cs_cid session,
      hs_name = cs_name session,
      hs_callsign = cs_callsign session,
      hs_frequency = cs_frequency session,
      hs_facility = cs_facility session,
      hs_departure = cs_departure session,
      hs_arrival = cs_arrival session,
      hs_aircraft = cs_aircraft session,
      hs_startTime = cs_startTime session,
      hs_endTime = cs_lastSeen session,
      hs_durationMinutes =
        duration_minutes (getTime (cs_startTime session)) (getTime (cs_lastSeen session)),
      hs_date = take 10 (cs_startTime session),
      hs_removedAt = None\<rparr>"

text \<open>The in-place update of the counters at a closure (lines 251 to 262).\<close>

definition bump_stats :: "HistoricalSession \<Rightarrow> Stats \<Rightarrow> Stats" where
  "bump_stats h st =
     (if hs_type h = Controller then
        (if \<not> is_atis (hs_callsign h) then
           st\<lparr>totalControllerMinutes := totalControllerMinutes st + hs_durationMinutes h,
              totalControllerSessions := totalControllerSessions st + 1\<rparr>
         else st)
      else
        st\<lparr>totalPilotMinutes := totalPilotMinutes st + hs_durationMinutes h,
           totalPilotSessions := totalPilotSessions st + 1\<rparr>)"

record closing =
  cl_sessions :: session_map
  cl_history :: "HistoricalSession list"
  cl_stats :: Stats
  cl_db :: database
  cl_removed :: "HistoricalSession list"

definition is_stale :: "(string \<Rightarrow> int) \<Rightarrow> int \<Rightarrow> string list \<Rightarrow> string \<times> CachedSession \<Rightarrow> bool" where
  "is_stale getTime now seenIds e =
     (fst e \<notin> set seenIds \<and> now - getTime (cs_lastSeen (snd e)) > staleThreshold)"

text \<open>
  One turn of the loop over \<open>Object.entries(sessionCache.sessions)\<close>. The write to the
  database is fired without being awaited; it reads only the record built here, so its
  effect is the one of running it in place.
\<close>

definition close_stale ::
  "(string \<Rightarrow> int) \<Rightarrow> db_env \<Rightarrow> int \<Rightarrow> string \<Rightarrow> string list \<Rightarrow>
   closing \<Rightarrow> string \<times> CachedSession \<Rightarrow> closing" where
  "close_stale getTime env now nowIso seenIds cl e =
     (if is_stale getTime now seenIds e then
        let historicalSession = to_historical getTime (snd e)
        in \<lparr>cl_sessions = delete_key (fst e) (cl_sessions cl),
            cl_history = historicalSession # cl_history cl,
            cl_stats = bump_stats historicalSession (cl_stats cl),
            cl_db = saveSessionToDatabase getTime env historicalSession (cl_db cl),
            cl_removed = cl_removed cl @ [historicalSession\<lparr>hs_removedAt := Some nowIso\<rparr>]\<rparr>
      else cl)"

record store =
  sessions :: session_map
  history :: "HistoricalSession list"
  stats :: Stats
  db :: database

record update_result =
  r_store :: store
  r_added :: "added_event list"
  r_removed :: "HistoricalSession list"

definition track_all ::
  "string \<Rightarrow> controller_entry list \<Rightarrow> pilot_entry list \<Rightarrow> session_map \<Rightarrow> tracking" where
  "track_all nowIso currentControllers currentPilots ss =
     foldl (track_pilot nowIso)
       (foldl (track_controller nowIso)
          \<lparr>t_sessions = ss, t_added = [], t_seenIds = []\<rparr> currentControllers)
       currentPilots"

text \<open>
  \<open>updateSessions\<close>. The clock is read once (\<open>now\<close>, \<open>nowIso\<close>); the calls into the
  roster (its own file, modelled further down) touch neither store and are left out here.
\<close>

definition updateSessions ::
  "(string \<Rightarrow> int) \<Rightarrow> db_env \<Rightarrow> int \<Rightarrow> string \<Rightarrow>
   controller_entry list \<Rightarrow> pilot_entry list \<Rightarrow> store \<Rightarrow> update_result" where
  "updateSessions getTime env now nowIso currentControllers currentPilots s =
     (let t = track_all nowIso currentControllers currentPilots (sessions s);
          cl = foldl (close_stale getTime env now nowIso (t_seenIds t))
                 \<lparr>cl_sessions = t_sessions t, cl_history = history s, cl_stats = stats s,
                  cl_db = db s, cl_removed = []\<rparr>
                 (t_sessions t);
          kept = (if length (cl_history cl) > 1000 then take 1000 (cl_history cl)
                  else cl_history cl)
      in \<lparr>r_store = \<lparr>sessions = cl_sessions cl, history = kept, stats = cl_stats cl,
                      db = cl_db cl\<rparr>,
          r_added = t_added t,
          r_removed = cl_removed cl\<rparr>)"

text \<open>The keys of the session map that a snapshot marks as seen.\<close>

definition observed_ids :: "controller_entry list \<Rightarrow> pilot_entry list \<Rightarrow> string set" where
  "observed_ids cs ps =
     (\<lambda>c. ''atc-'' @ c_callsign c) ` set cs \<union> (\<lambda>p. ''pilot-'' @ p_callsign p) ` set ps"

text \<open>
  The key under which the source files a session of a given identity (category and
  callsign): its two templates \<open>atc-${callsign}\<close> and \<open>pilot-${callsign}\<close>.
\<close>

definition session_key :: "session_type \<Rightarrow> string \<Rightarrow> string" where
  "session_key ty callsign =
     (case ty of Controller \<Rightarrow> ''atc-'' @ callsign | Pilot \<Rightarrow> ''pilot-'' @ callsign)"

text \<open>
  A session map as the source builds it: the keys are distinct (it is an object) and
  every entry sits under the key of its own identity.
\<close>

definition wf_sessions :: "session_map \<Rightarrow> bool" where
  "wf_sessions ss =
     (distinct (map fst ss) \<and>
      list_all (\<lambda>e. fst e = session_key (cs_type (snd e)) (cs_callsign (snd e))) ss)"

text \<open>The records of the sessions that one run closes, in the order of the loop.\<close>

definition closed_of ::
  "(string \<Rightarrow> int) \<Rightarrow> int \<Rightarrow> string list \<Rightarrow> session_map \<Rightarrow> HistoricalSession list" where
  "closed_of getTime now seenIds es =
     map (\<lambda>e. to_historical getTime (snd e)) (filter (is_stale getTime now seenIds) es)"

text \<open>A run of the poll loop: one call of \<open>updateSessions\<close> per cycle, each on the stores the last one left.\<close>

record cycle =
  cy_now :: int
  cy_nowIso :: string
  cy_controllers :: "controller_entry list"
  cy_pilots :: "pilot_entry list"

fun reconcile_all ::
  "(string \<Rightarrow> int) \<Rightarrow> db_env \<Rightarrow> store \<Rightarrow> cycle list \<Rightarrow> update_result list" where
  "reconcile_all getTime env s [] = []"
| "reconcile_all getTime env s (c # cs) =
     (let r = updateSessions getTime env (cy_now c) (cy_nowIso c)
                (cy_controllers c) (cy_pilots c) s
      in r # reconcile_all getTime env (r_store r) cs)"

section \<open>The other writers of closed sessions\<close>

text \<open>
  The closing loop of the one-shot ingest script (\<open>runOnce\<close>, "Close stale (>3 minutes)"),
  on the \<open>OpenSession\<close> table; \<open>dateNow\<close> is its \<open>Date.now()\<close>.
\<close>

definition close_open_session :: "database \<Rightarrow> OpenSessionRow \<Rightarrow> database" where
  "close_open_session d s =
     (let endT = os_lastSeenAt s;
          minutes = duration_minutes (os_startedAt s) endT;
          d1 = (if os_role s = ATC then
                  d\<lparr>controllerSession := controllerSession d @
                      [\<lparr>ctl_cid = os_cid s, ctl_callsign = os_callsign s, ctl_name = None,
                        ctl_fir = os_fir s, ctl_start = os_startedAt s, ctl_end = endT,
                        ctl_minutes = minutes\<rparr>]\<rparr>
                else
                  d\<lparr>pilotSession := pilotSession d @
                      [\<lparr>plt_cid = os_cid s, plt_callsign = os_callsign s, plt_name = None,
                        plt_dep = os_dep s, plt_arr = os_arr s, plt_aircraft = None,
                        plt_fir = os_fir s, plt_inPakistan = os_inPakistan s,
                        plt_start = os_startedAt s, plt_end = endT,
                        plt_minutes = minutes\<rparr>]\<rparr>)
      in d1\<lparr>openSession := filter (\<lambda>x. os_id x \<noteq> os_id s) (openSession d1)\<rparr>)"

definition ingest_close_stale :: "int \<Rightarrow> database \<Rightarrow> database" where
  "ingest_close_stale dateNow d =
     (let cutoff = dateNow - 3 * 60 * 1000;
          stale = filter (\<lambda>s. os_lastSeenAt s < cutoff) (openSession d)
      in foldl close_open_session d stale)"

text \<open>The row the backfill script builds from one item of the ATC history.\<close>

definition inferFIR :: "string \<Rightarrow> string option" where
  "inferFIR cs = (if startsWith cs ''OPKR_'' then Some ''OPKR''
                  else if startsWith cs ''OPLR_'' then Some ''OPLR'' else None)"

definition backfill_row :: "int option \<Rightarrow> string \<Rightarrow> int \<Rightarrow> int \<Rightarrow> ControllerSessionRow" where
  "backfill_row vatsim_id callsign start endT =
     \<lparr>ctl_cid = (case vatsim_id of None \<Rightarrow> None | Some n \<Rightarrow> num_or_null n),
      ctl_callsign = callsign, ctl_name = None, ctl_fir = inferFIR callsign,
      ctl_start = start, ctl_end = endT,
      ctl_minutes = max 1 (Math_round (real_of_int (endT - start) / 60000))\<rparr>"

section \<open>Aggregation\<close>

datatype group_by = Day | Week | Month | Year

record bucket =
  controllerMinutes :: int
  controllerSessions :: int
  pilotMinutes :: int
  pilotSessions :: int

text \<open>
  The period of a session. The week's key is computed by the runtime's \<open>Date\<close> from
  the session's date (lines 388 to 391): it is the parameter \<open>weekStart\<close>.
\<close>

definition period_of :: "(string \<Rightarrow> string) \<Rightarrow> group_by \<Rightarrow> HistoricalSession \<Rightarrow> string" where
  "period_of weekStart groupBy session =
     (case groupBy of
        Day \<Rightarrow> hs_date session
      | Week \<Rightarrow> weekStart (hs_date session)
      | Month \<Rightarrow> take 7 (hs_date session)
      | Year \<Rightarrow> take 4 (hs_date session))"

definition count_session :: "HistoricalSession \<Rightarrow> bucket \<Rightarrow> bucket" where
  "count_session session b =
     (if hs_type session = Controller then
        (if \<not> is_atis (hs_callsign session) then
           b\<lparr>controllerMinutes := controllerMinutes b + hs_durationMinutes session,
             controllerSessions := controllerSessions b + 1\<rparr>
         else b)
      else
        b\<lparr>pilotMinutes := pilotMinutes b + hs_durationMinutes session,
          pilotSessions := pilotSessions b + 1\<rparr>)"

definition group_session ::
  "(string \<Rightarrow> string) \<Rightarrow> group_by \<Rightarrow> (string \<times> bucket) list \<Rightarrow> HistoricalSession \<Rightarrow>
   (string \<times> bucket) list" where
  "group_session weekStart groupBy grouped session =
     (let period = period_of weekStart groupBy session;
          grouped1 = (if map_of grouped period = None then
                        grouped @ [(period, \<lparr>controllerMinutes = 0, controllerSessions = 0,
                                             pilotMinutes = 0, pilotSessions = 0\<rparr>)]
                      else grouped)
      in map (\<lambda>(k, b). if k = period then (k, count_session session b) else (k, b)) grouped1)"

text \<open>
  \<open>getAggregatedStats\<close> on the sessions of the history file. The periods are prefixes of
  ISO dates, on which \<open>localeCompare\<close> is the lexicographic order.
\<close>

definition getAggregatedStats ::
  "(string \<Rightarrow> string) \<Rightarrow> group_by \<Rightarrow> HistoricalSession list \<Rightarrow> (string \<times> bucket) list" where
  "getAggregatedStats weekStart groupBy sessions_of_history =
     sort_key fst (foldl (group_session weekStart groupBy) [] sessions_of_history)"

text \<open>
  The totals that the stats route, and the synchronizer, recompute from the list:
  \<open>filter(...).reduce((sum, s) => sum + s.durationMinutes, 0)\<close> and \<open>filter(...).length\<close>.
\<close>

definition recalculate_stats :: "HistoricalSession list \<Rightarrow> Stats" where
  "recalculate_stats ss =
     \<lparr>totalControllerMinutes =
        foldl (\<lambda>sum s. sum + hs_durationMinutes s) 0
          (filter (\<lambda>s. hs_type s = Controller \<and> \<not> is_atis (hs_callsign s)) ss),
      totalPilotMinutes =
        foldl (\<lambda>sum s. sum + hs_durationMinutes s) 0 (filter (\<lambda>s. hs_type s = Pilot) ss),
      totalControllerSessions =
        int (length (filter (\<lambda>s. hs_type s = Controller \<and> \<not> is_atis (hs_callsign s)) ss)),
      totalPilotSessions = int (length (filter (\<lambda>s. hs_type s = Pilot) ss))\<rparr>"

section \<open>The member detail route (app/api/member-sessions/route.ts)\<close>

text \<open>
  The route answers for one member, \<open>cidNum\<close> (the \<open>cid\<close> parameter after
  \<open>parseInt\<close>). It lists the member's controller sessions from the database, from the
  history file and from the open sessions, and totals their minutes. The comments of the
  source say it: "Include ALL sessions including ATIS for the detail view". A request
  without the parameter is answered with status 400 before any of this. The formatted
  \<open>hours\<close> strings and the member's data fetched from the network are left out.
\<close>

datatype session_source = SourceDatabase | SourceCache | SourceActive

record member_session =
  ms_callsign :: string
  ms_date :: string
  ms_startTime :: string
  ms_endTime :: string
  ms_minutes :: int
  ms_fir :: "string option"
  ms_source :: session_source

record date_group =
  dg_date :: string
  dg_sessions :: "member_session list"
  dg_totalMinutes :: int

record member_sessions_response =
  mr_cid :: int
  mr_totalMinutes :: int
  mr_totalSessions :: nat
  mr_callsigns :: "(string \<times> int \<times> nat) list"
  mr_sessionsByDate :: "date_group list"
  mr_allSessions :: "member_session list"

text \<open>
  \<open>Array.prototype.sort\<close> with a comparator \<open>b.key - a.key\<close> or
  \<open>b.key.localeCompare(a.key)\<close>: descending, and stable (equal keys keep their order).
  The keys compared with \<open>localeCompare\<close> are ISO dates and timestamps, on which it is
  the lexicographic order.
\<close>

definition sort_desc :: "('a \<Rightarrow> 'k::linorder) \<Rightarrow> 'a list \<Rightarrow> 'a list" where
  "sort_desc key xs = rev (sort_key key (rev xs))"

text \<open>
  The rows of the member in the database, latest start first; without \<open>DATABASE_URL\<close>
  the query is not made, and a failed query is caught and leaves the list empty.
\<close>

definition member_db_sessions ::
  "(int \<Rightarrow> string) \<Rightarrow> db_env \<Rightarrow> database \<Rightarrow> int \<Rightarrow> member_session list" where
  "member_db_sessions toISOString env d cidNum =
     (if database_url env \<and> connect_ok env then
        map (\<lambda>s. \<lparr>ms_callsign = ctl_callsign s,
                   ms_date = take 10 (toISOString (ctl_start s)),
                   ms_startTime = toISOString (ctl_start s),
                   ms_endTime = toISOString (ctl_end s),
                   ms_minutes = ctl_minutes s,
                   ms_fir = ctl_fir s,
                   ms_source = SourceDatabase\<rparr>)
          (sort_key (\<lambda>r. - ctl_start r)
             (filter (\<lambda>r. ctl_cid r = Some cidNum) (controllerSession d)))
      else [])"

text \<open>
  The two merging loops. Each carries the list \<open>sessions\<close> and the sum
  \<open>totalMinutes\<close>; \<open>cacheIds\<close> is computed once, from the database's sessions.
\<close>

definition add_cache_session ::
  "string set \<Rightarrow> member_session list \<times> int \<Rightarrow> HistoricalSession \<Rightarrow>
   member_session list \<times> int" where
  "add_cache_session cacheIds acc cs =
     (if hs_callsign cs @ ''-'' @ hs_startTime cs \<notin> cacheIds then
        (fst acc @ [\<lparr>ms_callsign = hs_callsign cs, ms_date = hs_date cs,
                     ms_startTime = hs_startTime cs, ms_endTime = hs_endTime cs,
                     ms_minutes = hs_durationMinutes cs, ms_fir = None,
                     ms_source = SourceCache\<rparr>],
         snd acc + hs_durationMinutes cs)
      else acc)"

definition add_active_session ::
  "(string \<Rightarrow> int) \<Rightarrow> int \<Rightarrow> string \<Rightarrow> int \<Rightarrow> string set \<Rightarrow>
   member_session list \<times> int \<Rightarrow> CachedSession \<Rightarrow> member_session list \<times> int" where
  "add_active_session getTime now nowIso cidNum cacheIds acc session =
     (if cs_type session = Controller \<and> cs_cid session = cidNum then
        (let startTime = getTime (cs_startTime session);
             sessionMinutes = Math_round (real_of_int (now - startTime) / 60000)
         in if cs_callsign session @ ''-'' @ cs_startTime session \<notin> cacheIds then
              (fst acc @ [\<lparr>ms_callsign = cs_callsign session,
                           ms_date = take 10 (cs_startTime session),
                           ms_startTime = cs_startTime session, ms_endTime = nowIso,
                           ms_minutes = sessionMinutes, ms_fir = None,
                           ms_source = SourceActive\<rparr>],
               snd acc + sessionMinutes)
            else acc)
      else acc)"

text \<open>
  The minutes and the number of sessions of each callsign, and the sessions of each date,
  as objects filled in the order of the sorted list.
\<close>

definition add_callsign ::
  "(string \<times> int \<times> nat) list \<Rightarrow> member_session \<Rightarrow> (string \<times> int \<times> nat) list" where
  "add_callsign callsignStats s =
     (let stats1 = (if map_of callsignStats (ms_callsign s) = None
                    then callsignStats @ [(ms_callsign s, 0, 0)] else callsignStats)
      in map (\<lambda>(k, m, n). if k = ms_callsign s then (k, m + ms_minutes s, n + 1) else (k, m, n))
           stats1)"

definition add_date ::
  "(string \<times> member_session list) list \<Rightarrow> member_session \<Rightarrow>
   (string \<times> member_session list) list" where
  "add_date sessionsByDate s =
     (let byDate1 = (if map_of sessionsByDate (ms_date s) = None
                     then sessionsByDate @ [(ms_date s, [])] else sessionsByDate)
      in map (\<lambda>(k, v). if k = ms_date s then (k, v @ [s]) else (k, v)) byDate1)"

text \<open>
  The response. The list of callsigns is sorted by the seconds read back from the
  formatted hours, which for the minutes of sessions (none negative) is the order of the
  minutes.
\<close>

definition member_sessions ::
  "(string \<Rightarrow> int) \<Rightarrow> (int \<Rightarrow> string) \<Rightarrow> db_env \<Rightarrow> int \<Rightarrow> string \<Rightarrow> store \<Rightarrow> int \<Rightarrow>
   member_sessions_response" where
  "member_sessions getTime toISOString env now nowIso s cidNum =
     (let dbSessions = member_db_sessions toISOString env (db s) cidNum;
          dbMinutes = foldl (\<lambda>sum x. sum + ms_minutes x) 0 dbSessions;
          cacheSessions = filter (\<lambda>x. hs_type x = Controller \<and> hs_cid x = cidNum) (history s);
          cacheIds = set (map (\<lambda>x. ms_callsign x @ ''-'' @ ms_startTime x) dbSessions);
          merged = foldl (add_cache_session cacheIds) (dbSessions, dbMinutes) cacheSessions;
          withActive = foldl (add_active_session getTime now nowIso cidNum cacheIds) merged
                         (map snd (sessions s));
          sorted = sort_desc (\<lambda>x. (ms_date x, ms_startTime x)) (fst withActive);
          callsignList = sort_desc (\<lambda>(k, m, n). m) (foldl add_callsign [] sorted);
          dateList = sort_desc dg_date
                       (map (\<lambda>(date, dateSessions).
                               \<lparr>dg_date = date,
                                dg_sessions = sort_desc ms_startTime dateSessions,
                                dg_totalMinutes =
                                  foldl (\<lambda>sum x. sum + ms_minutes x) 0 dateSessions\<rparr>)
                          (foldl add_date [] sorted))
      in \<lparr>mr_cid = cidNum, mr_totalMinutes = snd withActive,
          mr_totalSessions = length sorted, mr_callsigns = callsignList,
          mr_sessionsByDate = dateList, mr_allSessions = sorted\<rparr>)"


section \<open>The synchronizer (scripts/sync_db_to_cache.ts)\<close>

text \<open>JavaScript's \<open>x || 0\<close> and \<open>x || "Unknown"\<close> on nullable columns.\<close>

definition num_or_0 :: "int option \<Rightarrow> int" where
  "num_or_0 n = (case n of None \<Rightarrow> 0 | Some x \<Rightarrow> x)"

definition str_or :: "string option \<Rightarrow> string \<Rightarrow> string" where
  "str_or s d = (case s of None \<Rightarrow> d | Some x \<Rightarrow> if x = [] then d else x)"

record sync_state =
  sy_sessions :: "HistoricalSession list"
  sy_ids :: "string set"
  sy_controllerSessionsAdded :: nat
  sy_pilotSessionsAdded :: nat
  sy_controllerSessionsSkipped :: nat
  sy_pilotSessionsSkipped :: nat

text \<open>
  The two \<open>findMany\<close> of the synchronizer: the filter on the callsign is the store's
  own \<open>endsWith\<close>, which compares the characters as they are; rows come latest start
  first (the order among equal starts is the store's, here the stored one).
\<close>

definition find_controllers_non_atis :: "ControllerSessionRow list \<Rightarrow> ControllerSessionRow list" where
  "find_controllers_non_atis rows =
     sort_key (\<lambda>r. - ctl_start r) (filter (\<lambda>r. \<not> endsWith (ctl_callsign r) ''_ATIS'') rows)"

definition find_pilots :: "PilotSessionRow list \<Rightarrow> PilotSessionRow list" where
  "find_pilots rows = sort_key (\<lambda>r. - plt_start r) rows"

definition sync_controller ::
  "(int \<Rightarrow> string) \<Rightarrow> sync_state \<Rightarrow> ControllerSessionRow \<Rightarrow> sync_state" where
  "sync_controller toISOString st session =
     (let sessionId = ''atc-'' @ ctl_callsign session @ ''-'' @ toISOString (ctl_start session)
      in if sessionId \<in> sy_ids st then
           st\<lparr>sy_controllerSessionsSkipped := sy_controllerSessionsSkipped st + 1\<rparr>
         else
           st\<lparr>sy_sessions :=
                \<lparr>hs_id = sessionId, hs_type = Controller,
                 hs_cid = num_or_0 (ctl_cid session),
                 hs_name = str_or (ctl_name session) ''Unknown'',
                 hs_callsign = ctl_callsign session,
                 hs_frequency = None,
                 hs_facility = str_or_null (ctl_fir session),
                 hs_departure = None, hs_arrival = None, hs_aircraft = None,
                 hs_startTime = toISOString (ctl_start session),
                 hs_endTime = toISOString (ctl_end session),
                 hs_durationMinutes = ctl_minutes session,
                 hs_date = take 10 (toISOString (ctl_start session)),
                 hs_removedAt = None\<rparr> # sy_sessions st,
              sy_ids := insert sessionId (sy_ids st),
              sy_controllerSessionsAdded := sy_controllerSessionsAdded st + 1\<rparr>)"

definition sync_pilot ::
  "(int \<Rightarrow> string) \<Rightarrow> sync_state \<Rightarrow> PilotSessionRow \<Rightarrow> sync_state" where
  "sync_pilot toISOString st session =
     (let sessionId = ''pilot-'' @ plt_callsign session @ ''-'' @ toISOString (plt_start session)
      in if sessionId \<in> sy_ids st then
           st\<lparr>sy_pilotSessionsSkipped := sy_pilotSessionsSkipped st + 1\<rparr>
         else
           st\<lparr>sy_sessions :=
                \<lparr>hs_id = sessionId, hs_type = Pilot,
                 hs_cid = num_or_0 (plt_cid session),
                 hs_name = str_or (plt_name session) ''Unknown'',
                 hs_callsign = plt_callsign session,
                 hs_frequency = None, hs_facility = None,
                 hs_departure = str_or_null (plt_dep session),
                 hs_arrival = str_or_null (plt_arr session),
                 hs_aircraft = str_or_null (plt_aircraft session),
                 hs_startTime = toISOString (plt_start session),
                 hs_endTime = toISOString (plt_end session),
                 hs_durationMinutes = plt_minutes session,
                 hs_date = take 10 (toISOString (plt_start session)),
                 hs_removedAt = None\<rparr> # sy_sessions st,
              sy_ids := insert sessionId (sy_ids st),
              sy_pilotSessionsAdded := sy_pilotSessionsAdded st + 1\<rparr>)"

text \<open>The second half: the rows of \<open>OpenSession\<close> go into the session map.\<close>

definition sync_open :: "(int \<Rightarrow> string) \<Rightarrow> session_map \<Rightarrow> OpenSessionRow \<Rightarrow> session_map" where
  "sync_open toISOString ss session =
     (if os_role session = ATC then
        (let sid = ''atc-'' @ os_callsign session
         in if map_of ss sid = None then
              ss @ [(sid, \<lparr>cs_id = sid, cs_type = Controller,
                           cs_cid = num_or_0 (os_cid session), cs_name = ''Unknown'',
                           cs_callsign = os_callsign session, cs_frequency = None,
                           cs_facility = str_or_null (os_fir session),
                           cs_departure = None, cs_arrival = None, cs_aircraft = None,
                           cs_startTime = toISOString (os_startedAt session),
                           cs_lastSeen = toISOString (os_lastSeenAt session)\<rparr>)]
            else set_lastSeen sid (toISOString (os_lastSeenAt session)) ss)
      else
        (let sid = ''pilot-'' @ os_callsign session
         in if map_of ss sid = None then
              ss @ [(sid, \<lparr>cs_id = sid, cs_type = Pilot,
                           cs_cid = num_or_0 (os_cid session), cs_name = ''Unknown'',
                           cs_callsign = os_callsign session, cs_frequency = None,
                           cs_facility = None,
                           cs_departure = str_or_null (os_dep session),
                           cs_arrival = str_or_null (os_arr session), cs_aircraft = None,
                           cs_startTime = toISOString (os_startedAt session),
                           cs_lastSeen = toISOString (os_lastSeenAt session)\<rparr>)]
            else set_lastSeen sid (toISOString (os_lastSeenAt session)) ss))"

text \<open>The history after the two import loops, before the counters and the cap.\<close>

definition sync_import :: "(int \<Rightarrow> string) \<Rightarrow> store \<Rightarrow> sync_state" where
  "sync_import toISOString s =
     foldl (sync_pilot toISOString)
       (foldl (sync_controller toISOString)
          \<lparr>sy_sessions = history s, sy_ids = set (map hs_id (history s)),
           sy_controllerSessionsAdded = 0, sy_pilotSessionsAdded = 0,
           sy_controllerSessionsSkipped = 0, sy_pilotSessionsSkipped = 0\<rparr>
          (find_controllers_non_atis (controllerSession (db s))))
       (find_pilots (pilotSession (db s)))"

text \<open>
  \<open>syncDatabaseToCache\<close>: without a connection it returns before it reads a file;
  otherwise it imports, recomputes the counters from the whole list, then keeps the
  first 1000 entries, then fills the session map.
\<close>

definition syncDatabaseToCache :: "(int \<Rightarrow> string) \<Rightarrow> db_env \<Rightarrow> store \<Rightarrow> store" where
  "syncDatabaseToCache toISOString env s =
     (if \<not> connect_ok env then s
      else
        let st = sync_import toISOString s;
            newStats = recalculate_stats (sy_sessions st);
            kept = (if length (sy_sessions st) > 1000 then take 1000 (sy_sessions st)
                    else sy_sessions st);
            openSessions = sort_key (\<lambda>r. - os_lastSeenAt r) (openSession (db s))
        in \<lparr>sessions = foldl (sync_open toISOString) (sessions s) openSessions,
            history = kept, stats = newStats, db = db s\<rparr>)"

section \<open>The roster (lib/roster.ts)\<close>

datatype member_source = Manual | AutoDetected

record MemberInfo =
  m_cid :: int
  m_name :: "string option"
  m_rating :: int
  m_ratingName :: string
  m_pilotRating :: int
  m_pilotRatingName :: string
  m_subdivision :: string
  m_division :: string
  m_region :: string
  m_registrationDate :: string
  m_lastSeen :: "string option"
  m_lastCallsign :: "string option"
  m_addedAt :: string
  m_source :: member_source
  m_totalControllerMinutes :: "int option"
  m_totalPilotMinutes :: "int option"
  m_sessionsCount :: "int option"

type_synonym roster = "int \<rightharpoonup> MemberInfo"

text \<open>A callsign that is given and not the empty string, and does not end in \<open>_ATIS\<close>.\<close>

definition callsign_non_atis :: "string option \<Rightarrow> bool" where
  "callsign_non_atis callsign =
     (case callsign of None \<Rightarrow> False | Some c \<Rightarrow> c \<noteq> [] \<and> \<not> is_atis c)"

definition callsign_atis :: "string option \<Rightarrow> bool" where
  "callsign_atis callsign =
     (case callsign of None \<Rightarrow> False | Some c \<Rightarrow> c \<noteq> [] \<and> is_atis c)"

definition updateMemberStats ::
  "string \<Rightarrow> roster \<Rightarrow> int \<Rightarrow> session_type \<Rightarrow> int \<Rightarrow> string option \<Rightarrow> roster" where
  "updateMemberStats nowIso r cid ty minutes callsign =
     (case r cid of
        None \<Rightarrow> r
      | Some m \<Rightarrow>
          let m1 = m\<lparr>m_lastSeen := Some nowIso,
                     m_sessionsCount := Some (num_or_0 (m_sessionsCount m) + 1)\<rparr>;
              m2 = (if ty = Controller then
                      (let m' = m1\<lparr>m_totalControllerMinutes :=
                                      Some (num_or_0 (m_totalControllerMinutes m1) + minutes)\<rparr>
                       in if callsign_non_atis callsign
                          then m'\<lparr>m_lastCallsign := callsign\<rparr> else m')
                    else m1\<lparr>m_totalPilotMinutes :=
                               Some (num_or_0 (m_totalPilotMinutes m1) + minutes)\<rparr>)
          in r(cid \<mapsto> m2))"

definition updateMemberLastSeen :: "string \<Rightarrow> roster \<Rightarrow> int \<Rightarrow> string option \<Rightarrow> roster" where
  "updateMemberLastSeen nowIso r cid callsign =
     (case r cid of
        None \<Rightarrow> r
      | Some m \<Rightarrow>
          let m1 = m\<lparr>m_lastSeen := Some nowIso\<rparr>
          in r(cid \<mapsto> (if callsign_non_atis callsign
                          then m1\<lparr>m_lastCallsign := callsign\<rparr> else m1)))"

text \<open>
  What \<open>updateSessions\<close> tells the roster when it closes a session (lines 264 to 271):
  nothing for a controller session whose callsign ends in \<open>_ATIS\<close>.
\<close>

definition closure_roster_update :: "string \<Rightarrow> roster \<Rightarrow> HistoricalSession \<Rightarrow> roster" where
  "closure_roster_update nowIso r h =
     (if hs_cid h \<noteq> 0 then
        (if hs_type h = Controller \<and> \<not> is_atis (hs_callsign h) then
           updateMemberStats nowIso r (hs_cid h) (hs_type h) (hs_durationMinutes h)
             (Some (hs_callsign h))
         else if hs_type h = Pilot then
           updateMemberStats nowIso r (hs_cid h) (hs_type h) (hs_durationMinutes h) None
         else r)
      else r)"

text \<open>
  \<open>findLastNonAtisCallsign\<close>: the open sessions in the order of the object, then the
  history from its head, then the latest row of the database whose callsign does not
  end in \<open>_ATIS\<close>; a failed query is caught and counts as no row.
\<close>

definition find_latest_controller_row :: "int \<Rightarrow> ControllerSessionRow list \<Rightarrow> string option" where
  "find_latest_controller_row cid rows =
     (case sort_key (\<lambda>r. - ctl_start r)
             (filter (\<lambda>r. ctl_cid r = Some cid \<and> \<not> endsWith (ctl_callsign r) ''_ATIS'') rows) of
        [] \<Rightarrow> None
      | r # rs \<Rightarrow> Some (ctl_callsign r))"

definition findLastNonAtisCallsign :: "db_env \<Rightarrow> store \<Rightarrow> int \<Rightarrow> string option" where
  "findLastNonAtisCallsign env s cid =
     (case filter (\<lambda>session. cs_type session = Controller \<and> cs_cid session = cid
                      \<and> \<not> is_atis (cs_callsign session)) (map snd (sessions s)) of
        session # rest \<Rightarrow> Some (cs_callsign session)
      | [] \<Rightarrow>
         (case filter (\<lambda>session. hs_type session = Controller \<and> hs_cid session = cid
                          \<and> \<not> is_atis (hs_callsign session)) (history s) of
            session # rest \<Rightarrow> Some (hs_callsign session)
          | [] \<Rightarrow>
             (if database_url env \<and> connect_ok env
              then find_latest_controller_row cid (controllerSession (db s))
              else None)))"

text \<open>\<open>String(cid)\<close>, the decimal digits of a number.\<close>

fun digits_of_nat :: "nat \<Rightarrow> string" where
  "digits_of_nat n =
     (if n < 10 then [char_of (48 + n)]
      else digits_of_nat (n div 10) @ [char_of (48 + n mod 10)])"

definition String_of_int :: "int \<Rightarrow> string" where
  "String_of_int i = (if i < 0 then CHR ''-'' # digits_of_nat (nat (- i)) else digits_of_nat (nat i))"

text \<open>
  \<open>name.trim() === ""\<close>: \<open>trim\<close> strips the white space and the line
  terminators of JavaScript, which among the characters below 256 are the codes 9 to 13,
  the space (32) and the no-break space (160).
\<close>

definition is_blank :: "string \<Rightarrow> bool" where
  "is_blank s = list_all (\<lambda>c. (of_char c :: nat) \<in> {9, 10, 11, 12, 13, 32, 160}) s"

definition is_position_name :: "string \<Rightarrow> bool" where
  "is_position_name name =
     (toUpperCase name \<in> set [''APP'', ''TWR'', ''GND'', ''DEL'', ''CTR'', ''FSS'', ''ATIS''])"

definition name_untracked :: "string option \<Rightarrow> bool" where
  "name_untracked n =
     (case n of None \<Rightarrow> True
      | Some x \<Rightarrow> x = [] \<or> x = ''Not Tracked'' \<or> x = ''Unknown'' \<or> is_blank x)"

text \<open>
  \<open>updateMemberFromLive\<close>. \<open>fetched\<close> is what \<open>fetchMemberInfo\<close> would return as
  \<open>info\<close> (the network's answer), read only for a member outside the subdivision
  whose rating is unknown.
\<close>

definition updateMemberFromLive ::
  "string \<Rightarrow> MemberInfo option \<Rightarrow> db_env \<Rightarrow> store \<Rightarrow> roster \<Rightarrow> int \<Rightarrow> string \<Rightarrow>
   string option \<Rightarrow> roster" where
  "updateMemberFromLive nowIso fetched env s r cid name callsign =
     (case r cid of
        None \<Rightarrow> r
      | Some member \<Rightarrow>
          let m1 = (if name_untracked (m_name member)
                       \<and> name \<noteq> [] \<and> name \<noteq> String_of_int cid \<and> \<not> is_position_name name
                    then member\<lparr>m_name := Some name\<rparr> else member);
              m2 = m1\<lparr>m_lastSeen := Some nowIso\<rparr>;
              m3 = (if callsign_non_atis callsign then m2\<lparr>m_lastCallsign := callsign\<rparr>
                    else if callsign_atis callsign then
                      (case findLastNonAtisCallsign env s cid of
                         None \<Rightarrow> m2
                       | Some lastNonAtis \<Rightarrow>
                           if lastNonAtis \<noteq> [] then m2\<lparr>m_lastCallsign := Some lastNonAtis\<rparr>
                           else m2)
                    else m2);
              isResident = (m_subdivision m3 = ''PAK'');
              m4 = (if \<not> isResident \<and> (m_ratingName m3 = ''Unknown'' \<or> m_rating m3 = 0) then
                      (case fetched of
                         None \<Rightarrow> m3
                       | Some info \<Rightarrow>
                           let m' = m3\<lparr>m_rating := m_rating info,
                                       m_ratingName := m_ratingName info,
                                       m_pilotRating := m_pilotRating info,
                                       m_pilotRatingName := m_pilotRatingName info,
                                       m_subdivision := m_subdivision info,
                                       m_division := m_division info,
                                       m_region := m_region info\<rparr>
                           in (case m_name info of
                                 None \<Rightarrow> m'
                               | Some n \<Rightarrow>
                                   if n \<noteq> [] \<and> n \<noteq> ''Not Tracked''
                                   then m'\<lparr>m_name := Some n\<rparr> else m'))
                    else m3)
          in r(cid \<mapsto> m4))"

section \<open>The live collector (its \<open>runOnce\<close> and its loop)\<close>

text \<open>
  What one cycle meets: an exception anywhere inside the \<open>try\<close> (the FIR data, the
  feed, a timeout), or the classified controllers and pilots with the clock.
\<close>

datatype poll = PollFailed | PollOk cycle

datatype process = Running store | Exited int store

text \<open>\<open>runOnce\<close>: the \<open>catch\<close> logs the error and calls \<open>process.exit(1)\<close>.\<close>

definition runOnce :: "(string \<Rightarrow> int) \<Rightarrow> db_env \<Rightarrow> poll \<Rightarrow> store \<Rightarrow> process" where
  "runOnce getTime env p s =
     (case p of
        PollFailed \<Rightarrow> Exited 1 s
      | PollOk c \<Rightarrow>
          Running (r_store (updateSessions getTime env (cy_now c) (cy_nowIso c)
                              (cy_controllers c) (cy_pilots c) s)))"

text \<open>
  \<open>while (true) { await runOnce(); await sleep(15000) }\<close> on the polls met so far:
  the process is still running after them, or it has exited at one of them.
\<close>

fun live_loop :: "(string \<Rightarrow> int) \<Rightarrow> db_env \<Rightarrow> poll list \<Rightarrow> store \<Rightarrow> process" where
  "live_loop getTime env [] s = Running s"
| "live_loop getTime env (p # ps) s =
     (case runOnce getTime env p s of
        Exited code s' \<Rightarrow> Exited code s'
      | Running s' \<Rightarrow> live_loop getTime env ps s')"

text \<open>
  A session that one run closes: its key is not among the observed ones and it was last
  seen more than the threshold ago.
\<close>

definition absent_stale ::
  "(string \<Rightarrow> int) \<Rightarrow> int \<Rightarrow> controller_entry list \<Rightarrow> pilot_entry list \<Rightarrow>
   string \<times> CachedSession \<Rightarrow> bool" where
  "absent_stale getTime now cs ps e =
     (fst e \<notin> observed_ids cs ps \<and> now - getTime (cs_lastSeen (snd e)) > staleThreshold)"

definition closed_sessions ::
  "(string \<Rightarrow> int) \<Rightarrow> int \<Rightarrow> controller_entry list \<Rightarrow> pilot_entry list \<Rightarrow>
   session_map \<Rightarrow> HistoricalSession list" where
  "closed_sessions getTime now cs ps ss =
     map (\<lambda>e. to_historical getTime (snd e)) (filter (absent_stale getTime now cs ps) ss)"

section \<open>Notions of the statements\<close>

text \<open>
  The duration of a closed session as the specification writes it, on a record of the
  history and on a row of either table.
\<close>

definition hs_duration_ok :: "(string \<Rightarrow> int) \<Rightarrow> HistoricalSession \<Rightarrow> bool" where
  "hs_duration_ok getTime h =
     (hs_durationMinutes h =
        max 1 (Math_round (real_of_int (getTime (hs_endTime h) - getTime (hs_startTime h)) / 60000))
      \<and> 1 \<le> hs_durationMinutes h)"

definition ctl_row_ok :: "ControllerSessionRow \<Rightarrow> bool" where
  "ctl_row_ok row =
     (ctl_minutes row = max 1 (Math_round (real_of_int (ctl_end row - ctl_start row) / 60000))
      \<and> 1 \<le> ctl_minutes row)"

definition plt_row_ok :: "PilotSessionRow \<Rightarrow> bool" where
  "plt_row_ok row =
     (plt_minutes row = max 1 (Math_round (real_of_int (plt_end row - plt_start row) / 60000))
      \<and> 1 \<le> plt_minutes row)"

text \<open>
  The sum of two counter structs, field by field.
\<close>

definition add_stats :: "Stats \<Rightarrow> Stats \<Rightarrow> Stats" where
  "add_stats a b =
     \<lparr>totalControllerMinutes = totalControllerMinutes a + totalControllerMinutes b,
      totalPilotMinutes = totalPilotMinutes a + totalPilotMinutes b,
      totalControllerSessions = totalControllerSessions a + totalControllerSessions b,
      totalPilotSessions = totalPilotSessions a + totalPilotSessions b\<rparr>"

text \<open>
  A session whose absence crosses the threshold between two runs: not in the snapshot,
  within the threshold at the first run's clock and past it at the second's.
\<close>

definition crossing ::
  "(string \<Rightarrow> int) \<Rightarrow> int \<Rightarrow> int \<Rightarrow> controller_entry list \<Rightarrow> pilot_entry list \<Rightarrow>
   string \<times> CachedSession \<Rightarrow> bool" where
  "crossing getTime now1 now2 cs ps e =
     (fst e \<notin> observed_ids cs ps
      \<and> now1 - getTime (cs_lastSeen (snd e)) \<le> staleThreshold
      \<and> now2 - getTime (cs_lastSeen (snd e)) > staleThreshold)"

text \<open>
  The sessions of one identity (category and callsign) among those a run closed.
\<close>

definition closures_of :: "session_type \<Rightarrow> string \<Rightarrow> update_result \<Rightarrow> HistoricalSession list" where
  "closures_of ty callsign r =
     filter (\<lambda>h. hs_type h = ty \<and> hs_callsign h = callsign) (r_removed r)"

text \<open>The bucket a period starts with.\<close>

definition zero_bucket :: bucket where
  "zero_bucket = \<lparr>controllerMinutes = 0, controllerSessions = 0, pilotMinutes = 0, pilotSessions = 0\<rparr>"



section \<open>Example data\<close>

text \<open>
  A controller seen first at 00:00:00 and last at 00:01:30, a poll at 00:03:20 (110
  seconds later, within the threshold) and one at 00:03:35 (125 seconds later);
  \<open>example_getTime\<close> is \<open>getTime\<close> on these timestamps.
\<close>

definition t0 :: string where "t0 = ''2024-01-01T00:00:00.000Z''"
definition t90 :: string where "t90 = ''2024-01-01T00:01:30.000Z''"
definition t200 :: string where "t200 = ''2024-01-01T00:03:20.000Z''"
definition t215 :: string where "t215 = ''2024-01-01T00:03:35.000Z''"

definition example_getTime :: "string \<Rightarrow> int" where
  "example_getTime t =
     (if t = ''2024-01-01T00:00:00.000Z'' then 1704067200000
      else if t = ''2024-01-01T00:01:30.000Z'' then 1704067290000
      else if t = ''2024-01-01T00:03:20.000Z'' then 1704067400000
      else if t = ''2024-01-01T00:03:35.000Z'' then 1704067415000
      else 0)"

definition example_env :: db_env where
  "example_env = \<lparr>database_url = True, connect_ok = True, create_ok = True\<rparr>"

definition empty_db :: database where
  "empty_db = \<lparr>controllerSession = [], pilotSession = [], openSession = []\<rparr>"

definition zero_stats :: Stats where
  "zero_stats = \<lparr>totalControllerMinutes = 0, totalPilotMinutes = 0,
                  totalControllerSessions = 0, totalPilotSessions = 0\<rparr>"

definition tower_session :: CachedSession where
  "tower_session =
     \<lparr>cs_id = ''atc-OPKC_TWR'', cs_type = Controller, cs_cid = 1234567,
      cs_name = ''Old Name'', cs_callsign = ''OPKC_TWR'', cs_frequency = Some ''118.300'',
      cs_facility = Some ''TWR'', cs_departure = None, cs_arrival = None,
      cs_aircraft = None, cs_startTime = t0, cs_lastSeen = t90\<rparr>"

definition tower_store :: store where
  "tower_store = \<lparr>sessions = [(''atc-OPKC_TWR'', tower_session)], history = [],
                   stats = zero_stats, db = empty_db\<rparr>"

text \<open>An \<open>OpenSession\<close> table with one controller, last seen at 00:01:30.\<close>

definition example_open_db :: database where
  "example_open_db =
     \<lparr>controllerSession = [], pilotSession = [],
      openSession = [\<lparr>os_id = 1, os_role = ATC, os_callsign = ''OPKC_TWR'', os_cid = Some 1234567,
                      os_dep = None, os_arr = None, os_fir = None, os_inPakistan = False,
                      os_startedAt = 1704067200000, os_lastSeenAt = 1704067290000\<rparr>]\<rparr>"

text \<open>
  \<open>toISOString\<close> on the instants of the examples, and more example data: a
  history filled to the cap, a database with one controller row, and a store with an open
  ATIS session beside the tower's.
\<close>

definition example_toISOString :: "int \<Rightarrow> string" where
  "example_toISOString ms =
     (if ms = 1704067200000 then ''2024-01-01T00:00:00.000Z''
      else if ms = 1704067290000 then ''2024-01-01T00:01:30.000Z''
      else if ms = 1704067400000 then ''2024-01-01T00:03:20.000Z''
      else if ms = 1704067415000 then ''2024-01-01T00:03:35.000Z''
      else [])"

definition filler_record :: HistoricalSession where
  "filler_record =
     \<lparr>hs_id = ''pilot-PIA301-2023-12-31T10:00:00.000Z'', hs_type = Pilot, hs_cid = 7654321,
      hs_name = ''A Pilot'', hs_callsign = ''PIA301'', hs_frequency = None, hs_facility = None,
      hs_departure = Some ''OPKC'', hs_arrival = Some ''OPLA'', hs_aircraft = Some ''A320'',
      hs_startTime = ''2023-12-31T10:00:00.000Z'', hs_endTime = ''2023-12-31T10:01:00.000Z'',
      hs_durationMinutes = 1, hs_date = ''2023-12-31'', hs_removedAt = None\<rparr>"

definition full_store :: store where
  "full_store =
     \<lparr>sessions = [(''atc-OPKC_TWR'', tower_session)],
      history = replicate 1000 filler_record,
      stats = \<lparr>totalControllerMinutes = 0, totalPilotMinutes = 1000,
                totalControllerSessions = 0, totalPilotSessions = 1000\<rparr>,
      db = empty_db\<rparr>"

definition tower_row :: ControllerSessionRow where
  "tower_row = \<lparr>ctl_cid = Some 1234567, ctl_callsign = ''OPKC_TWR'', ctl_name = None,
                 ctl_fir = None, ctl_start = 1704067200000, ctl_end = 1704067290000,
                 ctl_minutes = 2\<rparr>"

definition db_store :: store where
  "db_store =
     \<lparr>sessions = [], history = [], stats = zero_stats,
      db = \<lparr>controllerSession = [tower_row], pilotSession = [], openSession = []\<rparr>\<rparr>"

definition atis_session :: CachedSession where
  "atis_session =
     \<lparr>cs_id = ''atc-OPKC_ATIS'', cs_type = Controller, cs_cid = 1234567,
      cs_name = ''Old Name'', cs_callsign = ''OPKC_ATIS'', cs_frequency = Some ''126.700'',
      cs_facility = Some ''TWR'', cs_departure = None, cs_arrival = None,
      cs_aircraft = None, cs_startTime = t0, cs_lastSeen = t90\<rparr>"

definition atis_store :: store where
  "atis_store =
     \<lparr>sessions = [(''atc-OPKC_ATIS'', atis_session), (''atc-OPKC_TWR'', tower_session)],
      history = [], stats = zero_stats, db = empty_db\<rparr>"

text \<open>
  The tower's controller as a later snapshot shows it, with another name, frequency and facility.
\<close>

definition tower_entry :: controller_entry where
  "tower_entry = \<lparr>c_cid = 1234567, c_name = ''New Name'', c_callsign = ''OPKC_TWR'',
                   c_frequency = ''119.100'', c_facility = ''APP''\<rparr>"

text \<open>
  A snapshot entry for another controller, the approach position.
\<close>

definition approach_entry :: controller_entry where
  "approach_entry = \<lparr>c_cid = 1111111, c_name = ''Another Name'', c_callsign = ''OPKC_APP'',
                      c_frequency = ''125.500'', c_facility = ''APP''\<rparr>"

text \<open>
  Two polls whose snapshot holds the approach controller only, at 00:03:20 and at 00:03:35.
\<close>

definition cycle_200 :: cycle where
  "cycle_200 = \<lparr>cy_now = 1704067400000, cy_nowIso = t200,
                 cy_controllers = [approach_entry], cy_pilots = []\<rparr>"

definition cycle_215 :: cycle where
  "cycle_215 = \<lparr>cy_now = 1704067415000, cy_nowIso = t215,
                 cy_controllers = [approach_entry], cy_pilots = []\<rparr>"

text \<open>
  Two closed controller sessions of 30 minutes each: an ATIS position (its callsign in
  lower case) and the tower.
\<close>

definition atis_record :: HistoricalSession where
  "atis_record =
     \<lparr>hs_id = ''atc-OPKC_ATIS-2024-01-01T00:00:00.000Z'', hs_type = Controller, hs_cid = 1234567,
      hs_name = ''Old Name'', hs_callsign = ''opkc_atis'', hs_frequency = Some ''126.700'',
      hs_facility = Some ''TWR'', hs_departure = None, hs_arrival = None, hs_aircraft = None,
      hs_startTime = ''2024-01-01T00:00:00.000Z'', hs_endTime = ''2024-01-01T00:30:00.000Z'',
      hs_durationMinutes = 30, hs_date = ''2024-01-01'', hs_removedAt = None\<rparr>"

definition tower_record :: HistoricalSession where
  "tower_record =
     \<lparr>hs_id = ''atc-OPKC_TWR-2024-01-02T00:00:00.000Z'', hs_type = Controller, hs_cid = 1234567,
      hs_name = ''Old Name'', hs_callsign = ''OPKC_TWR'', hs_frequency = Some ''118.300'',
      hs_facility = Some ''TWR'', hs_departure = None, hs_arrival = None, hs_aircraft = None,
      hs_startTime = ''2024-01-02T00:00:00.000Z'', hs_endTime = ''2024-01-02T00:30:00.000Z'',
      hs_durationMinutes = 30, hs_date = ''2024-01-02'', hs_removedAt = None\<rparr>"

text \<open>
  A roster with one member, whose last callsign is an approach position.
\<close>

definition example_member :: MemberInfo where
  "example_member =
     \<lparr>m_cid = 1234567, m_name = Some ''Old Name'', m_rating = 5, m_ratingName = ''C1'',
      m_pilotRating = 0, m_pilotRatingName = ''None'', m_subdivision = ''PAK'',
      m_division = ''WA'', m_region = ''EMEA'', m_registrationDate = ''2015-05-05T00:00:00'',
      m_lastSeen = Some ''2023-12-31T00:00:00.000Z'', m_lastCallsign = Some ''OPLA_APP'',
      m_addedAt = ''2023-01-01T00:00:00.000Z'', m_source = Manual,
      m_totalControllerMinutes = Some 600, m_totalPilotMinutes = None,
      m_sessionsCount = Some 12\<rparr>"

definition example_roster :: roster where
  "example_roster = Map.empty(1234567 \<mapsto> example_member)"

text \<open>
  A store whose history holds the two closed sessions, both of member 1234567, with no
  open session and an empty database.
\<close>

definition pair_store :: store where
  "pair_store = \<lparr>sessions = [], history = [atis_record, tower_record],
                  stats = zero_stats, db = empty_db\<rparr>"

text \<open>
  The member's ATIS position with its callsign in lower case, as the only open session,
  over a database filled by the backfill script (which imports ATIS positions too): the
  member's approach session first, then the ATIS position in lower case, then the same
  position in upper case, and a later tower session of another member.
\<close>

definition lower_atis_session :: CachedSession where
  "lower_atis_session =
     \<lparr>cs_id = ''atc-opkc_atis'', cs_type = Controller, cs_cid = 1234567,
      cs_name = ''Old Name'', cs_callsign = ''opkc_atis'', cs_frequency = Some ''126.700'',
      cs_facility = Some ''TWR'', cs_departure = None, cs_arrival = None,
      cs_aircraft = None, cs_startTime = t200, cs_lastSeen = t215\<rparr>"

definition backfilled_db :: database where
  "backfilled_db =
     \<lparr>controllerSession =
        [backfill_row (Some 1234567) ''OPLA_APP'' 1704067200000 1704067290000,
         backfill_row (Some 1234567) ''opkc_atis'' 1704067290000 1704067400000,
         backfill_row (Some 1234567) ''OPKC_ATIS'' 1704067400000 1704067415000,
         backfill_row (Some 7654321) ''OPKC_TWR'' 1704067415000 1704067415000],
      pilotSession = [], openSession = []\<rparr>"

definition lower_atis_store :: store where
  "lower_atis_store =
     \<lparr>sessions = [(''atc-opkc_atis'', lower_atis_session)], history = [], stats = zero_stats,
      db = backfilled_db\<rparr>"






declare digits_of_nat.simps [simp del]

section \<open>The loops of updateSessions in closed form\<close>

lemma Math_round_div: "Math_round (real_of_int d / 60000) = (d + 30000) div 60000"
proof -
  have "real_of_int d / 60000 + 1 / 2 = real_of_int (d + 30000) / real_of_int 60000"
    by (simp add: field_simps)
  then show ?thesis
    unfolding Math_round_def by (simp only: floor_divide_of_int_eq)
qed

lemma foldl_close_stale_removed:
  "cl_removed (foldl (close_stale g env now nowIso seen) cl es) =
     cl_removed cl @ map (\<lambda>h. h\<lparr>hs_removedAt := Some nowIso\<rparr>) (closed_of g now seen es)"
  by (induction es arbitrary: cl) (simp_all add: close_stale_def Let_def closed_of_def)

lemma foldl_close_stale_history:
  "cl_history (foldl (close_stale g env now nowIso seen) cl es) =
     rev (closed_of g now seen es) @ cl_history cl"
  by (induction es arbitrary: cl) (simp_all add: close_stale_def Let_def closed_of_def)

lemma foldl_close_stale_stats:
  "cl_stats (foldl (close_stale g env now nowIso seen) cl es) =
     foldl (\<lambda>st h. bump_stats h st) (cl_stats cl) (closed_of g now seen es)"
  by (induction es arbitrary: cl) (simp_all add: close_stale_def Let_def closed_of_def)

lemma foldl_close_stale_db:
  "cl_db (foldl (close_stale g env now nowIso seen) cl es) =
     foldl (\<lambda>d h. saveSessionToDatabase g env h d) (cl_db cl) (closed_of g now seen es)"
  by (induction es arbitrary: cl) (simp_all add: close_stale_def Let_def closed_of_def)

lemma close_stale_sessions:
  "cl_sessions (close_stale g env now nowIso seen cl e) =
     (if is_stale g now seen e then delete_key (fst e) (cl_sessions cl) else cl_sessions cl)"
  by (simp add: close_stale_def Let_def)

lemma foldl_close_stale_sessions:
  "cl_sessions (foldl (close_stale g env now nowIso seen) cl es) =
     filter (\<lambda>e. fst e \<notin> fst ` set (filter (is_stale g now seen) es)) (cl_sessions cl)"
proof (induction es arbitrary: cl)
  case Nil
  then show ?case by simp
next
  case (Cons e es)
  have "cl_sessions (foldl (close_stale g env now nowIso seen) cl (e # es)) =
        filter (\<lambda>x. fst x \<notin> fst ` set (filter (is_stale g now seen) es))
          (cl_sessions (close_stale g env now nowIso seen cl e))"
    by (simp only: foldl_Cons Cons.IH)
  also have "\<dots> = filter (\<lambda>x. fst x \<notin> fst ` set (filter (is_stale g now seen) (e # es)))
          (cl_sessions cl)"
    by (auto simp: close_stale_sessions delete_key_def case_prod_beta intro!: filter_cong)
  finally show ?case .
qed

lemma filter_not_stale_self:
  assumes "distinct (map fst es)"
  shows "filter (\<lambda>e. fst e \<notin> fst ` set (filter P es)) es = filter (\<lambda>e. \<not> P e) es"
proof (rule filter_cong[OF refl])
  fix e assume e: "e \<in> set es"
  have "(fst e \<in> fst ` set (filter P es)) = P e"
  proof
    assume "fst e \<in> fst ` set (filter P es)"
    then obtain e' where e': "e' \<in> set es" "P e'" "fst e' = fst e" by auto
    from assms e e' have "e' = e"
      by (metis eq_key_imp_eq_value prod.collapse)
    with e' show "P e" by simp
  next
    assume "P e" with e show "fst e \<in> fst ` set (filter P es)" by auto
  qed
  then show "(fst e \<notin> fst ` set (filter P es)) = (\<not> P e)" by simp
qed

lemma session_key_inj:
  "session_key ty cs = session_key ty' cs' \<Longrightarrow> ty = ty' \<and> cs = cs'"
  by (cases ty; cases ty') (simp_all add: session_key_def)

lemma map_fst_set_lastSeen [simp]: "map fst (set_lastSeen sid x ss) = map fst ss"
  by (induction ss) (auto simp: set_lastSeen_def)

lemma filter_set_lastSeen:
  "sid \<in> S \<Longrightarrow> filter (\<lambda>e. fst e \<notin> S) (set_lastSeen sid x ss) = filter (\<lambda>e. fst e \<notin> S) ss"
  by (induction ss) (auto simp: set_lastSeen_def split: if_splits)

lemma map_of_set_lastSeen:
  "map_of (set_lastSeen sid x ss) k =
     (if k = sid then map_option (\<lambda>v. v\<lparr>cs_lastSeen := x\<rparr>) (map_of ss k) else map_of ss k)"
  by (induction ss) (auto simp: set_lastSeen_def)

lemma map_of_None_iff: "(map_of ss k = None) = (k \<notin> set (map fst ss))"
  by (simp add: map_of_eq_None_iff)

lemma track_controller_seen:
  "t_seenIds (track_controller nowIso t c) = (''atc-'' @ c_callsign c) # t_seenIds t"
  by (simp add: track_controller_def Let_def)

lemma track_pilot_seen:
  "t_seenIds (track_pilot nowIso t p) = (''pilot-'' @ p_callsign p) # t_seenIds t"
  by (simp add: track_pilot_def Let_def)

lemma track_controller_unseen:
  "''atc-'' @ c_callsign c \<in> S \<Longrightarrow>
   filter (\<lambda>e. fst e \<notin> S) (t_sessions (track_controller nowIso t c)) =
   filter (\<lambda>e. fst e \<notin> S) (t_sessions t)"
  by (simp add: track_controller_def Let_def filter_set_lastSeen)

lemma track_pilot_unseen:
  "''pilot-'' @ p_callsign p \<in> S \<Longrightarrow>
   filter (\<lambda>e. fst e \<notin> S) (t_sessions (track_pilot nowIso t p)) =
   filter (\<lambda>e. fst e \<notin> S) (t_sessions t)"
  by (simp add: track_pilot_def Let_def filter_set_lastSeen)

lemma foldl_track_controller_seen:
  "set (t_seenIds (foldl (track_controller nowIso) t cs)) =
     set (t_seenIds t) \<union> (\<lambda>c. ''atc-'' @ c_callsign c) ` set cs"
  by (induction cs arbitrary: t) (auto simp: track_controller_seen)

lemma foldl_track_pilot_seen:
  "set (t_seenIds (foldl (track_pilot nowIso) t ps)) =
     set (t_seenIds t) \<union> (\<lambda>p. ''pilot-'' @ p_callsign p) ` set ps"
  by (induction ps arbitrary: t) (auto simp: track_pilot_seen)

lemma track_all_seen:
  "set (t_seenIds (track_all nowIso cs ps ss)) = observed_ids cs ps"
  by (simp add: track_all_def foldl_track_pilot_seen foldl_track_controller_seen observed_ids_def)

lemma foldl_track_controller_unseen:
  "(\<lambda>c. ''atc-'' @ c_callsign c) ` set cs \<subseteq> S \<Longrightarrow>
   filter (\<lambda>e. fst e \<notin> S) (t_sessions (foldl (track_controller nowIso) t cs)) =
   filter (\<lambda>e. fst e \<notin> S) (t_sessions t)"
  by (induction cs arbitrary: t) (simp_all add: track_controller_unseen)

lemma foldl_track_pilot_unseen:
  "(\<lambda>p. ''pilot-'' @ p_callsign p) ` set ps \<subseteq> S \<Longrightarrow>
   filter (\<lambda>e. fst e \<notin> S) (t_sessions (foldl (track_pilot nowIso) t ps)) =
   filter (\<lambda>e. fst e \<notin> S) (t_sessions t)"
  by (induction ps arbitrary: t) (simp_all add: track_pilot_unseen)

lemma track_all_unseen:
  "filter (\<lambda>e. fst e \<notin> observed_ids cs ps) (t_sessions (track_all nowIso cs ps ss)) =
   filter (\<lambda>e. fst e \<notin> observed_ids cs ps) ss"
proof -
  let ?S = "observed_ids cs ps"
  have c: "(\<lambda>c. ''atc-'' @ c_callsign c) ` set cs \<subseteq> ?S"
    and p: "(\<lambda>p. ''pilot-'' @ p_callsign p) ` set ps \<subseteq> ?S"
    by (auto simp: observed_ids_def)
  show ?thesis
    unfolding track_all_def
    by (simp only: foldl_track_pilot_unseen[OF p] foldl_track_controller_unseen[OF c] tracking.simps)
qed

lemma filter_is_stale_unseen:
  "filter (is_stale g now seen) es =
   filter (\<lambda>e. now - g (cs_lastSeen (snd e)) > staleThreshold) (filter (\<lambda>e. fst e \<notin> set seen) es)"
  by (induction es) (auto simp: is_stale_def)

lemma track_all_stale:
  "filter (is_stale g now (t_seenIds (track_all nowIso cs ps ss))) (t_sessions (track_all nowIso cs ps ss)) =
   filter (\<lambda>e. fst e \<notin> observed_ids cs ps \<and> now - g (cs_lastSeen (snd e)) > staleThreshold) ss"
  by (simp add: filter_is_stale_unseen track_all_seen track_all_unseen conj_commute)

lemma track_all_absent_stale:
  "filter (is_stale g now (t_seenIds (track_all nowIso cs ps ss))) (t_sessions (track_all nowIso cs ps ss))
     = filter (absent_stale g now cs ps) ss"
  unfolding track_all_stale by (rule filter_cong) (simp_all add: absent_stale_def)

lemma closed_of_track_all:
  "closed_of g now (t_seenIds (track_all nowIso cs ps ss)) (t_sessions (track_all nowIso cs ps ss))
     = closed_sessions g now cs ps ss"
  unfolding closed_of_def closed_sessions_def
  by (simp only: track_all_absent_stale)

lemma updateSessions_removed:
  "r_removed (updateSessions g env now nowIso cs ps s) =
     map (\<lambda>h. h\<lparr>hs_removedAt := Some nowIso\<rparr>) (closed_sessions g now cs ps (sessions s))"
  by (simp add: updateSessions_def Let_def foldl_close_stale_removed closed_of_track_all)

lemma updateSessions_history:
  "history (r_store (updateSessions g env now nowIso cs ps s)) =
     take 1000 (rev (closed_sessions g now cs ps (sessions s)) @ history s)"
  by (simp add: updateSessions_def Let_def foldl_close_stale_history closed_of_track_all)

lemma updateSessions_stats:
  "stats (r_store (updateSessions g env now nowIso cs ps s)) =
     foldl (\<lambda>st h. bump_stats h st) (stats s) (closed_sessions g now cs ps (sessions s))"
  by (simp add: updateSessions_def Let_def foldl_close_stale_stats closed_of_track_all)

lemma updateSessions_db:
  "db (r_store (updateSessions g env now nowIso cs ps s)) =
     foldl (\<lambda>d h. saveSessionToDatabase g env h d) (db s) (closed_sessions g now cs ps (sessions s))"
  by (simp add: updateSessions_def Let_def foldl_close_stale_db closed_of_track_all)

lemma updateSessions_added:
  "r_added (updateSessions g env now nowIso cs ps s) = t_added (track_all nowIso cs ps (sessions s))"
  by (simp add: updateSessions_def Let_def)

lemma updateSessions_sessions:
  "sessions (r_store (updateSessions g env now nowIso cs ps s)) =
     filter (\<lambda>e. fst e \<notin> fst ` set (filter (absent_stale g now cs ps) (sessions s)))
       (t_sessions (track_all nowIso cs ps (sessions s)))"
proof -
  let ?t = "track_all nowIso cs ps (sessions s)"
  have "sessions (r_store (updateSessions g env now nowIso cs ps s)) =
        filter (\<lambda>e. fst e \<notin> fst ` set (filter (is_stale g now (t_seenIds ?t)) (t_sessions ?t)))
          (t_sessions ?t)"
    by (simp add: updateSessions_def Let_def foldl_close_stale_sessions del: set_filter)
  then show ?thesis by (simp only: track_all_absent_stale)
qed

lemma to_historical_duration:
  "hs_durationMinutes (to_historical g v) =
     max 1 (Math_round (real_of_int (g (hs_endTime (to_historical g v)) - g (hs_startTime (to_historical g v))) / 60000))"
  by (simp add: to_historical_def duration_minutes_def)

section \<open>The duration of closed sessions\<close>

lemma save_rows_ok:
  assumes "hs_duration_ok g h"
  shows "\<exists>cn pn. controllerSession (saveSessionToDatabase g env h d) = controllerSession d @ cn
           \<and> pilotSession (saveSessionToDatabase g env h d) = pilotSession d @ pn
           \<and> list_all ctl_row_ok cn \<and> list_all plt_row_ok pn
           \<and> list_all (\<lambda>r. ctl_start r = g (hs_startTime h) \<and> ctl_end r = g (hs_endTime h)) cn
           \<and> list_all (\<lambda>r. plt_start r = g (hs_startTime h) \<and> plt_end r = g (hs_endTime h)) pn"
  using assms
  by (auto simp: saveSessionToDatabase_def Let_def ctl_row_ok_def plt_row_ok_def hs_duration_ok_def)

lemma foldl_save_rows_ok:
  assumes "list_all (hs_duration_ok g) hs"
  shows "\<exists>cn pn. controllerSession (foldl (\<lambda>d h. saveSessionToDatabase g env h d) d hs) = controllerSession d @ cn
           \<and> pilotSession (foldl (\<lambda>d h. saveSessionToDatabase g env h d) d hs) = pilotSession d @ pn
           \<and> list_all ctl_row_ok cn \<and> list_all plt_row_ok pn
           \<and> list_all (\<lambda>r. \<exists>h \<in> set hs. ctl_start r = g (hs_startTime h) \<and> ctl_end r = g (hs_endTime h)) cn
           \<and> list_all (\<lambda>r. \<exists>h \<in> set hs. plt_start r = g (hs_startTime h) \<and> plt_end r = g (hs_endTime h)) pn"
  using assms
proof (induction hs arbitrary: d)
  case Nil
  then show ?case by simp
next
  case (Cons h hs)
  from Cons.prems have h: "hs_duration_ok g h" and rest: "list_all (hs_duration_ok g) hs"
    by simp_all
  from save_rows_ok[OF h, of env d] obtain cn1 pn1 where
    1: "controllerSession (saveSessionToDatabase g env h d) = controllerSession d @ cn1"
       "pilotSession (saveSessionToDatabase g env h d) = pilotSession d @ pn1"
       "list_all ctl_row_ok cn1" "list_all plt_row_ok pn1"
       "list_all (\<lambda>r. ctl_start r = g (hs_startTime h) \<and> ctl_end r = g (hs_endTime h)) cn1"
       "list_all (\<lambda>r. plt_start r = g (hs_startTime h) \<and> plt_end r = g (hs_endTime h)) pn1"
    by blast
  from Cons.IH[OF rest, of "saveSessionToDatabase g env h d"] obtain cn2 pn2 where
    2: "controllerSession (foldl (\<lambda>d h. saveSessionToDatabase g env h d) (saveSessionToDatabase g env h d) hs)
          = controllerSession (saveSessionToDatabase g env h d) @ cn2"
       "pilotSession (foldl (\<lambda>d h. saveSessionToDatabase g env h d) (saveSessionToDatabase g env h d) hs)
          = pilotSession (saveSessionToDatabase g env h d) @ pn2"
       "list_all ctl_row_ok cn2" "list_all plt_row_ok pn2"
       "list_all (\<lambda>r. \<exists>h \<in> set hs. ctl_start r = g (hs_startTime h) \<and> ctl_end r = g (hs_endTime h)) cn2"
       "list_all (\<lambda>r. \<exists>h \<in> set hs. plt_start r = g (hs_startTime h) \<and> plt_end r = g (hs_endTime h)) pn2"
    by blast
  show ?case
    apply (rule exI[of _ "cn1 @ cn2"], rule exI[of _ "pn1 @ pn2"])
    using 1 2 by (auto simp: list_all_iff)
qed

lemma close_open_session_rows:
  "\<exists>cn pn. controllerSession (close_open_session d x) = controllerSession d @ cn
         \<and> pilotSession (close_open_session d x) = pilotSession d @ pn
         \<and> list_all ctl_row_ok cn \<and> list_all plt_row_ok pn
         \<and> list_all (\<lambda>r. ctl_start r = os_startedAt x \<and> ctl_end r = os_lastSeenAt x) cn
         \<and> list_all (\<lambda>r. plt_start r = os_startedAt x \<and> plt_end r = os_lastSeenAt x) pn"
  by (auto simp: close_open_session_def Let_def ctl_row_ok_def plt_row_ok_def duration_minutes_def)

lemma foldl_close_open_session_rows:
  "\<exists>cn pn. controllerSession (foldl close_open_session d xs) = controllerSession d @ cn
         \<and> pilotSession (foldl close_open_session d xs) = pilotSession d @ pn
         \<and> list_all ctl_row_ok cn \<and> list_all plt_row_ok pn
         \<and> list_all (\<lambda>r. \<exists>x \<in> set xs. ctl_start r = os_startedAt x \<and> ctl_end r = os_lastSeenAt x) cn
         \<and> list_all (\<lambda>r. \<exists>x \<in> set xs. plt_start r = os_startedAt x \<and> plt_end r = os_lastSeenAt x) pn"
proof (induction xs arbitrary: d)
  case Nil
  then show ?case by simp
next
  case (Cons x xs)
  from close_open_session_rows[of d x] obtain cn1 pn1 where
    1: "controllerSession (close_open_session d x) = controllerSession d @ cn1"
       "pilotSession (close_open_session d x) = pilotSession d @ pn1"
       "list_all ctl_row_ok cn1" "list_all plt_row_ok pn1"
       "list_all (\<lambda>r. ctl_start r = os_startedAt x \<and> ctl_end r = os_lastSeenAt x) cn1"
       "list_all (\<lambda>r. plt_start r = os_startedAt x \<and> plt_end r = os_lastSeenAt x) pn1"
    by blast
  from Cons.IH[of "close_open_session d x"] obtain cn2 pn2 where
    2: "controllerSession (foldl close_open_session (close_open_session d x) xs)
          = controllerSession (close_open_session d x) @ cn2"
       "pilotSession (foldl close_open_session (close_open_session d x) xs)
          = pilotSession (close_open_session d x) @ pn2"
       "list_all ctl_row_ok cn2" "list_all plt_row_ok pn2"
       "list_all (\<lambda>r. \<exists>x \<in> set xs. ctl_start r = os_startedAt x \<and> ctl_end r = os_lastSeenAt x) cn2"
       "list_all (\<lambda>r. \<exists>x \<in> set xs. plt_start r = os_startedAt x \<and> plt_end r = os_lastSeenAt x) pn2"
    by blast
  show ?case
    apply (rule exI[of _ "cn1 @ cn2"], rule exI[of _ "pn1 @ pn2"])
    using 1 2 by (auto simp: list_all_iff)
qed

lemma closed_sessions_ok:
  "list_all (hs_duration_ok g) (closed_sessions g now cs ps ss)"
  by (simp add: closed_sessions_def list_all_iff hs_duration_ok_def to_historical_def duration_minutes_def)

lemma closed_sessions_times:
  "h \<in> set (closed_sessions g now cs ps ss) \<Longrightarrow>
   \<exists>e \<in> set ss. hs_startTime h = cs_startTime (snd e) \<and> hs_endTime h = cs_lastSeen (snd e)"
proof -
  assume "h \<in> set (closed_sessions g now cs ps ss)"
  then obtain e where e: "e \<in> set ss" "h = to_historical g (snd e)"
    by (auto simp: closed_sessions_def)
  have "hs_startTime h = cs_startTime (snd e) \<and> hs_endTime h = cs_lastSeen (snd e)"
    by (simp add: e(2) to_historical_def)
  with e(1) show ?thesis by blast
qed

text \<open>
  Claim C3. Every closed session that an ingestion path produces has
  \<open>durationMinutes = max(1, round((endTime - startTime) / 60000))\<close>: the records that
  \<open>updateSessions\<close> returns and the rows it writes, the rows of the ingest script's
  closing loop, and the rows of the backfill. So the duration is at least 1; and where
  every open session has \<open>lastSeen\<close> no earlier than its start, every closed one
  has \<open>endTime\<close> no earlier than \<open>startTime\<close>.
\<close>

theorem closed_session_duration:
  "(\<forall>h \<in> set (r_removed (updateSessions g env now nowIso cs ps s)). hs_duration_ok g h)
   \<and> (\<forall>row \<in> set (drop (length (controllerSession (db s)))
                  (controllerSession (db (r_store (updateSessions g env now nowIso cs ps s))))).
        ctl_row_ok row)
   \<and> (\<forall>row \<in> set (drop (length (pilotSession (db s)))
                  (pilotSession (db (r_store (updateSessions g env now nowIso cs ps s))))).
        plt_row_ok row)
   \<and> (\<forall>row \<in> set (drop (length (controllerSession d))
                  (controllerSession (ingest_close_stale dateNow d))). ctl_row_ok row)
   \<and> (\<forall>row \<in> set (drop (length (pilotSession d))
                  (pilotSession (ingest_close_stale dateNow d))). plt_row_ok row)
   \<and> ctl_row_ok (backfill_row vatsim_id callsign start endT)
   \<and> ((\<forall>e \<in> set (sessions s). g (cs_startTime (snd e)) \<le> g (cs_lastSeen (snd e))) \<longrightarrow>
      (\<forall>h \<in> set (r_removed (updateSessions g env now nowIso cs ps s)).
         g (hs_startTime h) \<le> g (hs_endTime h)))
   \<and> ((\<forall>x \<in> set (openSession d). os_startedAt x \<le> os_lastSeenAt x) \<longrightarrow>
      (\<forall>row \<in> set (drop (length (controllerSession d))
                  (controllerSession (ingest_close_stale dateNow d))). ctl_start row \<le> ctl_end row)
      \<and> (\<forall>row \<in> set (drop (length (pilotSession d))
                  (pilotSession (ingest_close_stale dateNow d))). plt_start row \<le> plt_end row))"
proof -
  let ?r = "updateSessions g env now nowIso cs ps s"
  let ?hs = "closed_sessions g now cs ps (sessions s)"
  have A: "\<forall>h \<in> set (r_removed ?r). hs_duration_ok g h"
    by (simp add: updateSessions_removed closed_sessions_def hs_duration_ok_def
          to_historical_def duration_minutes_def)
  from foldl_save_rows_ok[OF closed_sessions_ok, where env = env and d = "db s"]
  obtain cn pn where
    rows: "controllerSession (db (r_store ?r)) = controllerSession (db s) @ cn"
          "pilotSession (db (r_store ?r)) = pilotSession (db s) @ pn"
          "list_all ctl_row_ok cn" "list_all plt_row_ok pn"
    unfolding updateSessions_db by blast
  have B: "\<forall>row \<in> set (drop (length (controllerSession (db s))) (controllerSession (db (r_store ?r)))). ctl_row_ok row"
    and C: "\<forall>row \<in> set (drop (length (pilotSession (db s))) (pilotSession (db (r_store ?r)))). plt_row_ok row"
    using rows by (simp_all add: list_all_iff)
  let ?stale = "filter (\<lambda>x. os_lastSeenAt x < dateNow - 3 * 60 * 1000) (openSession d)"
  from foldl_close_open_session_rows[of d ?stale]
  obtain cn' pn' where
    irows: "controllerSession (ingest_close_stale dateNow d) = controllerSession d @ cn'"
           "pilotSession (ingest_close_stale dateNow d) = pilotSession d @ pn'"
           "list_all ctl_row_ok cn'" "list_all plt_row_ok pn'"
           "list_all (\<lambda>r. \<exists>x \<in> set ?stale. ctl_start r = os_startedAt x \<and> ctl_end r = os_lastSeenAt x) cn'"
           "list_all (\<lambda>r. \<exists>x \<in> set ?stale. plt_start r = os_startedAt x \<and> plt_end r = os_lastSeenAt x) pn'"
    unfolding ingest_close_stale_def Let_def by blast
  have D: "\<forall>row \<in> set (drop (length (controllerSession d)) (controllerSession (ingest_close_stale dateNow d))). ctl_row_ok row"
    and E: "\<forall>row \<in> set (drop (length (pilotSession d)) (pilotSession (ingest_close_stale dateNow d))). plt_row_ok row"
    using irows by (simp_all add: list_all_iff)
  have F: "ctl_row_ok (backfill_row vatsim_id callsign start endT)"
    by (simp add: ctl_row_ok_def backfill_row_def)
  have G: "(\<forall>e \<in> set (sessions s). g (cs_startTime (snd e)) \<le> g (cs_lastSeen (snd e))) \<longrightarrow>
      (\<forall>h \<in> set (r_removed ?r). g (hs_startTime h) \<le> g (hs_endTime h))"
    by (auto simp: updateSessions_removed dest!: closed_sessions_times)
  have H: "(\<forall>x \<in> set (openSession d). os_startedAt x \<le> os_lastSeenAt x) \<longrightarrow>
      (\<forall>row \<in> set (drop (length (controllerSession d))
                  (controllerSession (ingest_close_stale dateNow d))). ctl_start row \<le> ctl_end row)
      \<and> (\<forall>row \<in> set (drop (length (pilotSession d))
                  (pilotSession (ingest_close_stale dateNow d))). plt_start row \<le> plt_end row)"
    using irows by (auto simp: list_all_iff)
  from A B C D E F G H show ?thesis by blast
qed

theorem closed_session_duration_witness:
  "r_removed (updateSessions example_getTime example_env 1704067415000 t215 [] [] tower_store)
     = [(to_historical example_getTime tower_session)\<lparr>hs_removedAt := Some t215\<rparr>]
   \<and> hs_durationMinutes (to_historical example_getTime tower_session) = 2
   \<and> hs_duration_ok example_getTime
        ((to_historical example_getTime tower_session)\<lparr>hs_removedAt := Some t215\<rparr>)
   \<and> example_getTime (cs_startTime tower_session) \<le> example_getTime (cs_lastSeen tower_session)
   \<and> example_getTime (hs_startTime (to_historical example_getTime tower_session))
        \<le> example_getTime (hs_endTime (to_historical example_getTime tower_session))
   \<and> map ctl_minutes (controllerSession (ingest_close_stale 1704067500000 example_open_db)) = [2]
   \<and> list_all ctl_row_ok (controllerSession (ingest_close_stale 1704067500000 example_open_db))
   \<and> list_all (\<lambda>row. ctl_start row \<le> ctl_end row)
        (controllerSession (ingest_close_stale 1704067500000 example_open_db))"
proof -
  let ?r = "updateSessions example_getTime example_env 1704067415000 t215 [] [] tower_store"
  let ?h = "to_historical example_getTime tower_session"
  note inst = closed_session_duration[of example_getTime example_env 1704067415000 t215 "[]" "[]"
      tower_store example_open_db 1704067500000 None "''OPKC_TWR''" 0 0]
  have rm: "r_removed ?r = [?h\<lparr>hs_removedAt := Some t215\<rparr>]"
    by (simp add: updateSessions_removed closed_sessions_def absent_stale_def observed_ids_def
        tower_store_def tower_session_def example_getTime_def t90_def staleThreshold_def)
  have dur: "hs_durationMinutes ?h = 2"
    by (simp add: to_historical_def tower_session_def example_getTime_def t0_def t90_def
        duration_minutes_def Math_round_def)
  have inv1: "\<forall>e \<in> set (sessions tower_store).
                example_getTime (cs_startTime (snd e)) \<le> example_getTime (cs_lastSeen (snd e))"
    by (simp add: tower_store_def tower_session_def example_getTime_def t0_def t90_def)
  have inv2: "\<forall>x \<in> set (openSession example_open_db). os_startedAt x \<le> os_lastSeenAt x"
    by (simp add: example_open_db_def)
  have ing: "map ctl_minutes (controllerSession (ingest_close_stale 1704067500000 example_open_db)) = [2]"
    by (simp add: ingest_close_stale_def example_open_db_def close_open_session_def Let_def
        duration_minutes_def Math_round_def)
  have len: "length (controllerSession example_open_db) = 0"
    by (simp add: example_open_db_def)
  from inst have ok: "\<forall>h \<in> set (r_removed ?r). hs_duration_ok example_getTime h" by blast
  from inst inv1 have le: "\<forall>h \<in> set (r_removed ?r).
      example_getTime (hs_startTime h) \<le> example_getTime (hs_endTime h)" by blast
  from inst have rows: "\<forall>row \<in> set (drop (length (controllerSession example_open_db))
      (controllerSession (ingest_close_stale 1704067500000 example_open_db))). ctl_row_ok row"
    by blast
  from inst inv2 have rle: "\<forall>row \<in> set (drop (length (controllerSession example_open_db))
      (controllerSession (ingest_close_stale 1704067500000 example_open_db))). ctl_start row \<le> ctl_end row"
    by blast
  from ok rm have 1: "hs_duration_ok example_getTime (?h\<lparr>hs_removedAt := Some t215\<rparr>)" by simp
  from le rm have 2: "example_getTime (hs_startTime ?h) \<le> example_getTime (hs_endTime ?h)" by simp
  from inv1 have 3: "example_getTime (cs_startTime tower_session) \<le> example_getTime (cs_lastSeen tower_session)"
    by (simp add: tower_store_def)
  from rows len have 4: "list_all ctl_row_ok (controllerSession (ingest_close_stale 1704067500000 example_open_db))"
    by (simp add: list_all_iff)
  from rle len have 5: "list_all (\<lambda>row. ctl_start row \<le> ctl_end row)
        (controllerSession (ingest_close_stale 1704067500000 example_open_db))"
    by (simp add: list_all_iff)
  from rm dur 1 2 3 4 5 ing show ?thesis by blast
qed

section \<open>The cap of the history, and what reaches the database\<close>

lemma sync_history:
  "connect_ok env \<Longrightarrow>
   history (syncDatabaseToCache f env s) = take 1000 (sy_sessions (sync_import f s))"
  by (simp add: syncDatabaseToCache_def Let_def)
















lemma save_controller_rows_non_atis:
  "\<exists>cn. controllerSession (saveSessionToDatabase g env h d) = controllerSession d @ cn
        \<and> list_all (\<lambda>r. \<not> is_atis (ctl_callsign r)) cn"
  by (simp add: saveSessionToDatabase_def Let_def)

lemma foldl_save_controller_rows_non_atis:
  "\<exists>cn. controllerSession (foldl (\<lambda>d h. saveSessionToDatabase g env h d) d hs) = controllerSession d @ cn
        \<and> list_all (\<lambda>r. \<not> is_atis (ctl_callsign r)) cn"
proof (induction hs arbitrary: d)
  case Nil
  then show ?case by simp
next
  case (Cons h hs)
  from save_controller_rows_non_atis[of g env h d] obtain c1 where
    1: "controllerSession (saveSessionToDatabase g env h d) = controllerSession d @ c1"
       "list_all (\<lambda>r. \<not> is_atis (ctl_callsign r)) c1" by blast
  from Cons.IH[of "saveSessionToDatabase g env h d"] obtain c2 where
    2: "controllerSession (foldl (\<lambda>d h. saveSessionToDatabase g env h d) (saveSessionToDatabase g env h d) hs)
          = controllerSession (saveSessionToDatabase g env h d) @ c2"
       "list_all (\<lambda>r. \<not> is_atis (ctl_callsign r)) c2" by blast
  show ?case
    by (rule exI[of _ "c1 @ c2"]) (use 1 2 in simp)
qed

lemma save_atis_skip:
  "hs_type h = Controller \<Longrightarrow> is_atis (hs_callsign h) \<Longrightarrow> saveSessionToDatabase g env h d = d"
  by (simp add: saveSessionToDatabase_def)

lemma foldl_save_skip_atis:
  "foldl (\<lambda>d h. saveSessionToDatabase g env h d) d hs =
   foldl (\<lambda>d h. saveSessionToDatabase g env h d) d
     (filter (\<lambda>h. \<not> (hs_type h = Controller \<and> is_atis (hs_callsign h))) hs)"
  by (induction hs arbitrary: d) (simp_all add: save_atis_skip)

lemma removed_in_history:
  assumes "h \<in> set (r_removed (updateSessions g env now nowIso cs ps s))"
    and "length (r_removed (updateSessions g env now nowIso cs ps s)) \<le> 1000"
  shows "h\<lparr>hs_removedAt := None\<rparr> \<in> set (history (r_store (updateSessions g env now nowIso cs ps s)))"
proof -
  let ?cl = "closed_sessions g now cs ps (sessions s)"
  from assms(1) obtain h0 where h0: "h0 \<in> set ?cl" "h = h0\<lparr>hs_removedAt := Some nowIso\<rparr>"
    by (auto simp: updateSessions_removed)
  have "hs_removedAt h0 = None"
    using h0(1) by (auto simp: closed_sessions_def to_historical_def)
  then have eq: "h\<lparr>hs_removedAt := None\<rparr> = h0" by (simp add: h0(2))
  from assms(2) have len: "length ?cl \<le> 1000" by (simp add: updateSessions_removed)
  have "set (rev ?cl) \<subseteq> set (take 1000 (rev ?cl @ history s))"
    using len by (simp add: set_take_subset)
  with h0(1) eq show ?thesis by (auto simp: updateSessions_history)
qed

text \<open>
  Claim C10. \<open>saveSessionToDatabase\<close> returns the database unchanged for a controller
  session whose callsign ends in \<open>_ATIS\<close> in any case of the letters. When
  \<open>updateSessions\<close> closes such a session it still goes into the history (it is among
  the entries kept, no more than 1000 being closed in the run), every controller row the
  run adds to the database has a callsign that does not end in \<open>_ATIS\<close>, and the
  database after the run is the one the other closed sessions alone produce.
\<close>

theorem atis_not_persisted:
  "(hs_type h = Controller \<and> is_atis (hs_callsign h) \<longrightarrow> saveSessionToDatabase g env h d = d)
   \<and> (\<forall>x \<in> set (r_removed (updateSessions g env now nowIso cs ps s)).
        hs_type x = Controller \<and> is_atis (hs_callsign x)
        \<and> length (r_removed (updateSessions g env now nowIso cs ps s)) \<le> 1000 \<longrightarrow>
        x\<lparr>hs_removedAt := None\<rparr> \<in> set (history (r_store (updateSessions g env now nowIso cs ps s))))
   \<and> (\<forall>row \<in> set (drop (length (controllerSession (db s)))
                  (controllerSession (db (r_store (updateSessions g env now nowIso cs ps s))))).
        \<not> is_atis (ctl_callsign row))
   \<and> db (r_store (updateSessions g env now nowIso cs ps s)) =
       foldl (\<lambda>d h. saveSessionToDatabase g env h d) (db s)
         (filter (\<lambda>h. \<not> (hs_type h = Controller \<and> is_atis (hs_callsign h)))
            (closed_sessions g now cs ps (sessions s)))"
proof -
  let ?r = "updateSessions g env now nowIso cs ps s"
  have 1: "hs_type h = Controller \<and> is_atis (hs_callsign h) \<longrightarrow> saveSessionToDatabase g env h d = d"
    by (simp add: save_atis_skip)
  have 2: "\<forall>x \<in> set (r_removed ?r).
        hs_type x = Controller \<and> is_atis (hs_callsign x) \<and> length (r_removed ?r) \<le> 1000 \<longrightarrow>
        x\<lparr>hs_removedAt := None\<rparr> \<in> set (history (r_store ?r))"
    using removed_in_history by blast
  from foldl_save_controller_rows_non_atis[of g env "db s" "closed_sessions g now cs ps (sessions s)"]
  have 3: "\<forall>row \<in> set (drop (length (controllerSession (db s))) (controllerSession (db (r_store ?r)))).
        \<not> is_atis (ctl_callsign row)"
    by (auto simp: updateSessions_db list_all_iff)
  have 4: "db (r_store ?r) =
       foldl (\<lambda>d h. saveSessionToDatabase g env h d) (db s)
         (filter (\<lambda>h. \<not> (hs_type h = Controller \<and> is_atis (hs_callsign h)))
            (closed_sessions g now cs ps (sessions s)))"
    unfolding updateSessions_db by (rule foldl_save_skip_atis)
  from 1 2 3 4 show ?thesis by blast
qed

lemma closed_tower:
  "closed_sessions example_getTime 1704067415000 [] [] [(''atc-OPKC_TWR'', tower_session)]
     = [to_historical example_getTime tower_session]"
  by (simp add: closed_sessions_def absent_stale_def observed_ids_def
      tower_session_def example_getTime_def t90_def staleThreshold_def)

lemma closed_atis_tower:
  "closed_sessions example_getTime 1704067415000 [] []
     [(''atc-OPKC_ATIS'', atis_session), (''atc-OPKC_TWR'', tower_session)]
     = [to_historical example_getTime atis_session, to_historical example_getTime tower_session]"
  by (simp add: closed_sessions_def absent_stale_def observed_ids_def atis_session_def
      tower_session_def example_getTime_def t90_def staleThreshold_def)

lemma is_atis_examples: "is_atis ''OPKC_ATIS''" "\<not> is_atis ''OPKC_TWR''"
  by (simp_all add: is_atis_def endsWith_def toUpperCase_def toUpperCase_char_def)

theorem atis_not_persisted_witness:
  "hs_type (to_historical example_getTime atis_session) = Controller
   \<and> is_atis (hs_callsign (to_historical example_getTime atis_session))
   \<and> saveSessionToDatabase example_getTime example_env
        (to_historical example_getTime atis_session) empty_db = empty_db
   \<and> to_historical example_getTime atis_session
        \<in> set (history (r_store (updateSessions example_getTime example_env 1704067415000 t215 [] []
                   atis_store)))
   \<and> map ctl_callsign (controllerSession (db (r_store (updateSessions example_getTime example_env
         1704067415000 t215 [] [] atis_store)))) = [''OPKC_TWR'']"
proof -
  let ?a = "to_historical example_getTime atis_session"
  let ?t = "to_historical example_getTime tower_session"
  let ?r = "updateSessions example_getTime example_env 1704067415000 t215 [] [] atis_store"
  note i = atis_not_persisted[of ?a example_getTime example_env empty_db 1704067415000 t215
      "[]" "[]" atis_store]
  have ty: "hs_type ?a = Controller" by (simp add: to_historical_def atis_session_def)
  have at: "is_atis (hs_callsign ?a)"
    by (simp add: to_historical_def atis_session_def is_atis_examples)
  have tw: "\<not> (hs_type ?t = Controller \<and> is_atis (hs_callsign ?t))"
    by (simp add: to_historical_def tower_session_def is_atis_examples)
  from i ty at have 1: "saveSessionToDatabase example_getTime example_env ?a empty_db = empty_db"
    by blast
  have rm: "r_removed ?r = [?a\<lparr>hs_removedAt := Some t215\<rparr>, ?t\<lparr>hs_removedAt := Some t215\<rparr>]"
    by (simp add: updateSessions_removed atis_store_def closed_atis_tower)
  have none: "?a\<lparr>hs_removedAt := None\<rparr> = ?a" by (simp add: to_historical_def)
  from i rm ty at have "?a\<lparr>hs_removedAt := None\<rparr> \<in> set (history (r_store ?r))" by simp
  then have 2: "?a \<in> set (history (r_store ?r))" by (simp only: none)
  from i have "db (r_store ?r) =
       foldl (\<lambda>d h. saveSessionToDatabase example_getTime example_env h d) (db atis_store)
         (filter (\<lambda>h. \<not> (hs_type h = Controller \<and> is_atis (hs_callsign h)))
            (closed_sessions example_getTime 1704067415000 [] [] (sessions atis_store)))" by blast
  then have "db (r_store ?r) = saveSessionToDatabase example_getTime example_env ?t empty_db"
    using ty at tw by (simp add: atis_store_def closed_atis_tower)
  then have 3: "map ctl_callsign (controllerSession (db (r_store ?r))) = [''OPKC_TWR'']"
    by (simp add: saveSessionToDatabase_def example_env_def to_historical_def tower_session_def
        is_atis_examples empty_db_def Let_def)
  from ty at 1 2 3 show ?thesis by blast
qed

section \<open>The counters of the history\<close>

lemma foldl_plus_sum_list:
  "foldl (\<lambda>sum s. sum + f s) (a::int) xs = a + sum_list (map f xs)"
  by (induction xs arbitrary: a) simp_all

lemma recalculate_stats_sum:
  "recalculate_stats ss =
     \<lparr>totalControllerMinutes =
        sum_list (map hs_durationMinutes
          (filter (\<lambda>s. hs_type s = Controller \<and> \<not> is_atis (hs_callsign s)) ss)),
      totalPilotMinutes = sum_list (map hs_durationMinutes (filter (\<lambda>s. hs_type s = Pilot) ss)),
      totalControllerSessions =
        int (length (filter (\<lambda>s. hs_type s = Controller \<and> \<not> is_atis (hs_callsign s)) ss)),
      totalPilotSessions = int (length (filter (\<lambda>s. hs_type s = Pilot) ss))\<rparr>"
  by (simp add: recalculate_stats_def foldl_plus_sum_list)

lemma recalculate_stats_append:
  "recalculate_stats (xs @ ys) = add_stats (recalculate_stats xs) (recalculate_stats ys)"
  by (simp add: recalculate_stats_sum add_stats_def)

lemma recalculate_stats_rev: "recalculate_stats (rev xs) = recalculate_stats xs"
  by (simp add: recalculate_stats_sum flip: rev_filter rev_map)

lemma add_stats_assoc: "add_stats (add_stats a b) c = add_stats a (add_stats b c)"
  by (simp add: add_stats_def)

lemma add_stats_Nil: "add_stats a (recalculate_stats []) = a"
  by (simp add: add_stats_def recalculate_stats_sum)

lemma bump_stats_add: "bump_stats h st = add_stats st (recalculate_stats [h])"
  by (cases "hs_type h") (simp_all add: bump_stats_def add_stats_def recalculate_stats_sum)

lemma foldl_bump_stats:
  "foldl (\<lambda>st h. bump_stats h st) st hs = add_stats st (recalculate_stats hs)"
proof (induction hs arbitrary: st)
  case Nil
  then show ?case by (simp add: add_stats_Nil)
next
  case (Cons h hs)
  have eq: "recalculate_stats (h # hs) = add_stats (recalculate_stats [h]) (recalculate_stats hs)"
    using recalculate_stats_append[of "[h]" hs] by simp
  have "foldl (\<lambda>st h. bump_stats h st) st (h # hs) =
        foldl (\<lambda>st h. bump_stats h st) (bump_stats h st) hs"
    by simp
  also have "\<dots> = add_stats (bump_stats h st) (recalculate_stats hs)"
    by (rule Cons.IH)
  also have "\<dots> = add_stats st (recalculate_stats (h # hs))"
    by (simp only: bump_stats_add add_stats_assoc eq)
  finally show ?case .
qed

lemma sync_stats:
  "connect_ok env \<Longrightarrow>
   stats (syncDatabaseToCache f env s) = recalculate_stats (sy_sessions (sync_import f s))"
  by (simp add: syncDatabaseToCache_def Let_def)

text \<open>
  Claim C5, as the code has it. \<open>updateSessions\<close> adds to the stored counters, in
  place, what the sessions closed in the run contribute (nothing for a controller session
  whose callsign ends in \<open>_ATIS\<close>): the counters after the run are the counters before
  plus the filtered sums and counts over the closed sessions. They equal the filtered
  fold over the stored list after the run when they did before it and the list stays
  within the cap of 1000. The synchronizer recomputes the counters as the filtered fold
  over the whole merged list, before the list is cut to 1000.
\<close>

theorem counters_incremented:
  "stats (r_store (updateSessions g env now nowIso cs ps s)) =
     add_stats (stats s) (recalculate_stats (closed_sessions g now cs ps (sessions s)))
   \<and> (stats s = recalculate_stats (history s)
        \<and> length (closed_sessions g now cs ps (sessions s)) + length (history s) \<le> 1000 \<longrightarrow>
      stats (r_store (updateSessions g env now nowIso cs ps s)) =
        recalculate_stats (history (r_store (updateSessions g env now nowIso cs ps s))))
   \<and> (connect_ok env \<longrightarrow>
        stats (syncDatabaseToCache toISOString env s) =
          recalculate_stats (sy_sessions (sync_import toISOString s))
        \<and> (length (sy_sessions (sync_import toISOString s)) \<le> 1000 \<longrightarrow>
            stats (syncDatabaseToCache toISOString env s) =
              recalculate_stats (history (syncDatabaseToCache toISOString env s))))"
proof -
  let ?cl = "closed_sessions g now cs ps (sessions s)"
  let ?r = "updateSessions g env now nowIso cs ps s"
  have 1: "stats (r_store ?r) = add_stats (stats s) (recalculate_stats ?cl)"
    by (simp add: updateSessions_stats foldl_bump_stats)
  have 2: "stats s = recalculate_stats (history s) \<and> length ?cl + length (history s) \<le> 1000 \<longrightarrow>
      stats (r_store ?r) = recalculate_stats (history (r_store ?r))"
  proof
    assume a: "stats s = recalculate_stats (history s) \<and> length ?cl + length (history s) \<le> 1000"
    then have "length (rev ?cl @ history s) \<le> 1000" by simp
    then have "take 1000 (rev ?cl @ history s) = rev ?cl @ history s"
      by (rule take_all)
    then have "history (r_store ?r) = rev ?cl @ history s"
      by (simp only: updateSessions_history)
    then have "recalculate_stats (history (r_store ?r)) =
               add_stats (recalculate_stats ?cl) (recalculate_stats (history s))"
      by (simp add: recalculate_stats_append recalculate_stats_rev)
    also have "\<dots> = add_stats (stats s) (recalculate_stats ?cl)"
      using a by (simp add: add_stats_def)
    finally show "stats (r_store ?r) = recalculate_stats (history (r_store ?r))"
      using 1 by simp
  qed
  have 3: "connect_ok env \<longrightarrow>
        stats (syncDatabaseToCache toISOString env s) =
          recalculate_stats (sy_sessions (sync_import toISOString s))
        \<and> (length (sy_sessions (sync_import toISOString s)) \<le> 1000 \<longrightarrow>
            stats (syncDatabaseToCache toISOString env s) =
              recalculate_stats (history (syncDatabaseToCache toISOString env s)))"
    by (simp add: sync_stats sync_history)
  from 1 2 3 show ?thesis by blast
qed

lemma closed_tower_full:
  "closed_sessions example_getTime 1704067415000 [] [] (sessions full_store)
     = [to_historical example_getTime tower_session]"
  by (simp add: full_store_def closed_tower)

lemma tower_historical_type: "hs_type (to_historical example_getTime tower_session) = Controller"
  by (simp add: to_historical_def tower_session_def)

text \<open>
  The claim as stated fails. With a history of 1000 pilot sessions and counters that
  are its fold, one closure leaves 1000 entries in the list (the oldest fell off) and
  counters that still count the 1000 pilots: they are no longer the fold over the list.
\<close>

theorem counters_drift_counterexample:
  "stats full_store = recalculate_stats (history full_store)
   \<and> stats (r_store (updateSessions example_getTime example_env 1704067415000 t215 [] [] full_store))
       \<noteq> recalculate_stats (history (r_store
            (updateSessions example_getTime example_env 1704067415000 t215 [] [] full_store)))"
proof -
  let ?r = "updateSessions example_getTime example_env 1704067415000 t215 [] [] full_store"
  have before: "stats full_store = recalculate_stats (history full_store)"
    by (simp add: full_store_def recalculate_stats_sum filler_record_def sum_list_replicate)
  have h: "history (r_store ?r) = to_historical example_getTime tower_session # replicate 999 filler_record"
    by (simp add: updateSessions_history closed_tower_full) (simp add: full_store_def)
  have a: "totalPilotSessions (stats (r_store ?r)) = 1000"
    by (simp add: updateSessions_stats closed_tower_full bump_stats_def tower_historical_type)
       (simp add: full_store_def)
  have b: "totalPilotSessions (recalculate_stats (history (r_store ?r))) = 999"
    by (simp add: h recalculate_stats_sum tower_historical_type filler_record_def)
  from a b have "stats (r_store ?r) \<noteq> recalculate_stats (history (r_store ?r))" by auto
  with before show ?thesis by blast
qed

theorem counters_incremented_witness:
  "stats tower_store = recalculate_stats (history tower_store)
   \<and> length (closed_sessions example_getTime 1704067415000 [] [] (sessions tower_store))
        + length (history tower_store) \<le> 1000
   \<and> stats (r_store (updateSessions example_getTime example_env 1704067415000 t215 [] [] tower_store))
       = \<lparr>totalControllerMinutes = 2, totalPilotMinutes = 0,
          totalControllerSessions = 1, totalPilotSessions = 0\<rparr>
   \<and> stats (r_store (updateSessions example_getTime example_env 1704067415000 t215 [] [] tower_store))
       = recalculate_stats (history (r_store
            (updateSessions example_getTime example_env 1704067415000 t215 [] [] tower_store)))
   \<and> connect_ok example_env
   \<and> length (sy_sessions (sync_import example_toISOString db_store)) \<le> 1000
   \<and> stats (syncDatabaseToCache example_toISOString example_env db_store) =
        recalculate_stats (history (syncDatabaseToCache example_toISOString example_env db_store))"
proof -
  let ?r = "updateSessions example_getTime example_env 1704067415000 t215 [] [] tower_store"
  note i1 = counters_incremented[of example_getTime example_env 1704067415000 t215 "[]" "[]"
      tower_store example_toISOString]
  note i2 = counters_incremented[of example_getTime example_env 1704067415000 t215 "[]" "[]"
      db_store example_toISOString]
  have cl: "closed_sessions example_getTime 1704067415000 [] [] (sessions tower_store)
     = [to_historical example_getTime tower_session]"
    by (simp add: tower_store_def closed_tower)
  have before: "stats tower_store = recalculate_stats (history tower_store)"
    by (simp add: tower_store_def zero_stats_def recalculate_stats_sum)
  have len: "length (closed_sessions example_getTime 1704067415000 [] [] (sessions tower_store))
        + length (history tower_store) \<le> 1000"
    by (simp add: cl) (simp add: tower_store_def)
  from i1 have "stats (r_store ?r) = add_stats (stats tower_store)
      (recalculate_stats (closed_sessions example_getTime 1704067415000 [] [] (sessions tower_store)))"
    by blast
  then have v: "stats (r_store ?r) = \<lparr>totalControllerMinutes = 2, totalPilotMinutes = 0,
          totalControllerSessions = 1, totalPilotSessions = 0\<rparr>"
    by (simp add: cl add_stats_def recalculate_stats_sum tower_historical_type)
       (simp add: tower_store_def zero_stats_def to_historical_def tower_session_def
          is_atis_examples example_getTime_def t0_def t90_def duration_minutes_def Math_round_def)
  from i1 before len have eq: "stats (r_store ?r) = recalculate_stats (history (r_store ?r))"
    by blast
  have on: "connect_ok example_env" by (simp add: example_env_def)
  have l2: "length (sy_sessions (sync_import example_toISOString db_store)) \<le> 1000"
    by (simp add: sync_import_def db_store_def find_controllers_non_atis_def find_pilots_def
        tower_row_def endsWith_def sync_controller_def Let_def)
  from i2 on l2 have s: "stats (syncDatabaseToCache example_toISOString example_env db_store) =
        recalculate_stats (history (syncDatabaseToCache example_toISOString example_env db_store))"
    by blast
  from before len v eq on l2 s show ?thesis by blast
qed

section \<open>A session that is seen again\<close>

lemma map_of_append_known:
  "map_of xs k = Some v \<Longrightarrow> map_of (xs @ ys) k = Some v"
  by (simp add: map_add_Some_iff)

lemma track_controller_known:
  "map_of (t_sessions t) (''atc-'' @ c_callsign c) = Some y \<Longrightarrow>
   track_controller n t c =
     \<lparr>t_sessions = set_lastSeen (''atc-'' @ c_callsign c) n (t_sessions t),
      t_added = t_added t, t_seenIds = (''atc-'' @ c_callsign c) # t_seenIds t\<rparr>"
  by (simp add: track_controller_def Let_def)

lemma track_pilot_known:
  "map_of (t_sessions t) (''pilot-'' @ p_callsign p) = Some y \<Longrightarrow>
   track_pilot n t p =
     \<lparr>t_sessions = set_lastSeen (''pilot-'' @ p_callsign p) n (t_sessions t),
      t_added = t_added t, t_seenIds = (''pilot-'' @ p_callsign p) # t_seenIds t\<rparr>"
  by (simp add: track_pilot_def Let_def)

lemma track_controller_map_of:
  assumes "map_of (t_sessions t) k = Some v"
  shows "map_of (t_sessions (track_controller n t c)) k =
           Some (if k = ''atc-'' @ c_callsign c then v\<lparr>cs_lastSeen := n\<rparr> else v)"
proof (cases "map_of (t_sessions t) (''atc-'' @ c_callsign c) = None")
  case True
  with assms have "k \<noteq> ''atc-'' @ c_callsign c" by auto
  with True assms show ?thesis
    by (simp add: track_controller_def Let_def map_of_append_known)
next
  case False
  then obtain y where "map_of (t_sessions t) (''atc-'' @ c_callsign c) = Some y" by blast
  from track_controller_known[OF this, of n] assms show ?thesis
    by (auto simp: map_of_set_lastSeen)
qed

lemma track_pilot_map_of:
  assumes "map_of (t_sessions t) k = Some v"
  shows "map_of (t_sessions (track_pilot n t p)) k =
           Some (if k = ''pilot-'' @ p_callsign p then v\<lparr>cs_lastSeen := n\<rparr> else v)"
proof (cases "map_of (t_sessions t) (''pilot-'' @ p_callsign p) = None")
  case True
  with assms have "k \<noteq> ''pilot-'' @ p_callsign p" by auto
  with True assms show ?thesis
    by (simp add: track_pilot_def Let_def map_of_append_known)
next
  case False
  then obtain y where "map_of (t_sessions t) (''pilot-'' @ p_callsign p) = Some y" by blast
  from track_pilot_known[OF this, of n] assms show ?thesis
    by (auto simp: map_of_set_lastSeen)
qed

lemma foldl_track_controller_map_of:
  "map_of (t_sessions t) k = Some v \<Longrightarrow>
   map_of (t_sessions (foldl (track_controller n) t cs)) k =
     Some (if k \<in> (\<lambda>c. ''atc-'' @ c_callsign c) ` set cs then v\<lparr>cs_lastSeen := n\<rparr> else v)"
proof (induction cs arbitrary: t v)
  case Nil
  then show ?case by simp
next
  case (Cons c cs)
  let ?v1 = "if k = ''atc-'' @ c_callsign c then v\<lparr>cs_lastSeen := n\<rparr> else v"
  have 1: "map_of (t_sessions (track_controller n t c)) k = Some ?v1"
    by (rule track_controller_map_of[OF Cons.prems])
  have "map_of (t_sessions (foldl (track_controller n) (track_controller n t c) cs)) k =
     Some (if k \<in> (\<lambda>c. ''atc-'' @ c_callsign c) ` set cs then ?v1\<lparr>cs_lastSeen := n\<rparr> else ?v1)"
    by (rule Cons.IH[OF 1])
  then show ?case by (simp split: if_splits)
qed

lemma foldl_track_pilot_map_of:
  "map_of (t_sessions t) k = Some v \<Longrightarrow>
   map_of (t_sessions (foldl (track_pilot n) t ps)) k =
     Some (if k \<in> (\<lambda>p. ''pilot-'' @ p_callsign p) ` set ps then v\<lparr>cs_lastSeen := n\<rparr> else v)"
proof (induction ps arbitrary: t v)
  case Nil
  then show ?case by simp
next
  case (Cons p ps)
  let ?v1 = "if k = ''pilot-'' @ p_callsign p then v\<lparr>cs_lastSeen := n\<rparr> else v"
  have 1: "map_of (t_sessions (track_pilot n t p)) k = Some ?v1"
    by (rule track_pilot_map_of[OF Cons.prems])
  have "map_of (t_sessions (foldl (track_pilot n) (track_pilot n t p) ps)) k =
     Some (if k \<in> (\<lambda>p. ''pilot-'' @ p_callsign p) ` set ps then ?v1\<lparr>cs_lastSeen := n\<rparr> else ?v1)"
    by (rule Cons.IH[OF 1])
  then show ?case by (simp split: if_splits)
qed

lemma track_all_map_of:
  assumes "map_of ss k = Some v"
  shows "map_of (t_sessions (track_all n cs ps ss)) k =
           Some (if k \<in> observed_ids cs ps then v\<lparr>cs_lastSeen := n\<rparr> else v)"
proof -
  let ?t0 = "\<lparr>t_sessions = ss, t_added = [], t_seenIds = []\<rparr>"
  let ?v1 = "if k \<in> (\<lambda>c. ''atc-'' @ c_callsign c) ` set cs then v\<lparr>cs_lastSeen := n\<rparr> else v"
  have 0: "map_of (t_sessions ?t0) k = Some v" using assms by simp
  have 1: "map_of (t_sessions (foldl (track_controller n) ?t0 cs)) k = Some ?v1"
    by (rule foldl_track_controller_map_of[OF 0])
  have "map_of (t_sessions (foldl (track_pilot n) (foldl (track_controller n) ?t0 cs) ps)) k =
     Some (if k \<in> (\<lambda>p. ''pilot-'' @ p_callsign p) ` set ps then ?v1\<lparr>cs_lastSeen := n\<rparr> else ?v1)"
    by (rule foldl_track_pilot_map_of[OF 1])
  then show ?thesis
    unfolding track_all_def observed_ids_def by (simp split: if_splits)
qed

lemma map_of_filter_keys:
  "k \<notin> A \<Longrightarrow> map_of (filter (\<lambda>e. fst e \<notin> A) xs) k = map_of xs k"
  by (induction xs) auto

lemma observed_not_closed:
  "k \<in> observed_ids cs ps \<Longrightarrow> k \<notin> fst ` set (filter (absent_stale g now cs ps) ss)"
  by (auto simp: absent_stale_def)

lemma updateSessions_refresh:
  assumes "k \<in> observed_ids cs ps" and "map_of (sessions s) k = Some v"
  shows "map_of (sessions (r_store (updateSessions g env now nowIso cs ps s))) k =
           Some (v\<lparr>cs_lastSeen := nowIso\<rparr>)"
  unfolding updateSessions_sessions
  by (simp only: map_of_filter_keys[OF observed_not_closed[OF assms(1)]]
        track_all_map_of[OF assms(2)] assms(1) if_True)

text \<open>
  Claim C4, as the code has it. When the key of an observed entry is already in the
  session map, the run sets the session's \<open>lastSeen\<close> to the current time and leaves
  every other stored field as it was: \<open>startTime\<close>, and also the name, the frequency,
  the facility, the departure, the arrival and the aircraft, which are not refreshed
  from the observed entry.
\<close>

theorem seen_session_refreshed:
  "k \<in> observed_ids cs ps \<and> map_of (sessions s) k = Some v \<longrightarrow>
   map_of (sessions (r_store (updateSessions g env now nowIso cs ps s))) k =
     Some (v\<lparr>cs_lastSeen := nowIso\<rparr>)"
  using updateSessions_refresh by blast

text \<open>
  The claim as stated fails: the tower is observed again with a new name and a new
  frequency, and the stored session keeps the old ones.
\<close>

theorem attributes_not_refreshed_counterexample:
  "''atc-'' @ c_callsign tower_entry \<in> observed_ids [tower_entry] []
   \<and> map_of (sessions tower_store) (''atc-'' @ c_callsign tower_entry) = Some tower_session
   \<and> map_of (sessions (r_store (updateSessions example_getTime example_env 1704067400000 t200
        [tower_entry] [] tower_store))) (''atc-'' @ c_callsign tower_entry)
       = Some (tower_session\<lparr>cs_lastSeen := t200\<rparr>)
   \<and> cs_name (tower_session\<lparr>cs_lastSeen := t200\<rparr>) = ''Old Name''
   \<and> c_name tower_entry = ''New Name''
   \<and> cs_frequency (tower_session\<lparr>cs_lastSeen := t200\<rparr>) = Some ''118.300''
   \<and> c_frequency tower_entry = ''119.100''"
proof -
  have 1: "''atc-'' @ c_callsign tower_entry \<in> observed_ids [tower_entry] []"
    by (simp add: observed_ids_def)
  have 2: "map_of (sessions tower_store) (''atc-'' @ c_callsign tower_entry) = Some tower_session"
    by (simp add: tower_store_def tower_entry_def)
  note 3 = updateSessions_refresh[OF 1 2, of example_getTime example_env 1704067400000 t200]
  have 4: "cs_name (tower_session\<lparr>cs_lastSeen := t200\<rparr>) = ''Old Name''"
          "c_name tower_entry = ''New Name''"
          "cs_frequency (tower_session\<lparr>cs_lastSeen := t200\<rparr>) = Some ''118.300''"
          "c_frequency tower_entry = ''119.100''"
    by (simp_all add: tower_session_def tower_entry_def)
  from 1 2 3 4 show ?thesis by blast
qed

theorem seen_session_refreshed_witness:
  "''atc-OPKC_TWR'' \<in> observed_ids [tower_entry] []
   \<and> map_of (sessions tower_store) ''atc-OPKC_TWR'' = Some tower_session
   \<and> map_of (sessions (r_store (updateSessions example_getTime example_env 1704067400000 t200
        [tower_entry] [] tower_store))) ''atc-OPKC_TWR''
       = Some (tower_session\<lparr>cs_lastSeen := t200\<rparr>)
   \<and> cs_startTime (tower_session\<lparr>cs_lastSeen := t200\<rparr>) = t0"
proof -
  have 1: "''atc-OPKC_TWR'' \<in> observed_ids [tower_entry] []"
    by (simp add: observed_ids_def tower_entry_def)
  have 2: "map_of (sessions tower_store) ''atc-OPKC_TWR'' = Some tower_session"
    by (simp add: tower_store_def)
  from 1 2 seen_session_refreshed[of "''atc-OPKC_TWR''" "[tower_entry]" "[]" tower_store
      tower_session example_getTime example_env 1704067400000 t200]
  have 3: "map_of (sessions (r_store (updateSessions example_getTime example_env 1704067400000 t200
        [tower_entry] [] tower_store))) ''atc-OPKC_TWR'' = Some (tower_session\<lparr>cs_lastSeen := t200\<rparr>)"
    by blast
  have 4: "cs_startTime (tower_session\<lparr>cs_lastSeen := t200\<rparr>) = t0"
    by (simp add: tower_session_def)
  from 1 2 3 4 show ?thesis by blast
qed

section \<open>The same snapshot twice\<close>

lemma track_controller_keys:
  "fst ` set (t_sessions (track_controller n t c)) =
     insert (''atc-'' @ c_callsign c) (fst ` set (t_sessions t))"
proof (cases "map_of (t_sessions t) (''atc-'' @ c_callsign c)")
  case None
  then show ?thesis by (auto simp: track_controller_def Let_def)
next
  case (Some y)
  then have "''atc-'' @ c_callsign c \<in> fst ` set (t_sessions t)"
    by (metis map_of_eq_None_iff option.distinct(1))
  moreover have "fst ` set (set_lastSeen (''atc-'' @ c_callsign c) n (t_sessions t)) = fst ` set (t_sessions t)"
    by (metis map_fst_set_lastSeen set_map)
  ultimately show ?thesis by (auto simp: track_controller_known[OF Some])
qed

lemma track_pilot_keys:
  "fst ` set (t_sessions (track_pilot n t p)) =
     insert (''pilot-'' @ p_callsign p) (fst ` set (t_sessions t))"
proof (cases "map_of (t_sessions t) (''pilot-'' @ p_callsign p)")
  case None
  then show ?thesis by (auto simp: track_pilot_def Let_def)
next
  case (Some y)
  then have "''pilot-'' @ p_callsign p \<in> fst ` set (t_sessions t)"
    by (metis map_of_eq_None_iff option.distinct(1))
  moreover have "fst ` set (set_lastSeen (''pilot-'' @ p_callsign p) n (t_sessions t)) = fst ` set (t_sessions t)"
    by (metis map_fst_set_lastSeen set_map)
  ultimately show ?thesis by (auto simp: track_pilot_known[OF Some])
qed

lemma foldl_track_controller_keys:
  "fst ` set (t_sessions (foldl (track_controller n) t cs)) =
     fst ` set (t_sessions t) \<union> (\<lambda>c. ''atc-'' @ c_callsign c) ` set cs"
  by (induction cs arbitrary: t) (auto simp: track_controller_keys)

lemma foldl_track_pilot_keys:
  "fst ` set (t_sessions (foldl (track_pilot n) t ps)) =
     fst ` set (t_sessions t) \<union> (\<lambda>p. ''pilot-'' @ p_callsign p) ` set ps"
  by (induction ps arbitrary: t) (auto simp: track_pilot_keys)

lemma track_all_keys:
  "fst ` set (t_sessions (track_all n cs ps ss)) = fst ` set ss \<union> observed_ids cs ps"
  by (simp add: track_all_def foldl_track_pilot_keys foldl_track_controller_keys observed_ids_def
      Un_assoc)

lemma foldl_track_controller_added:
  "(\<lambda>c. ''atc-'' @ c_callsign c) ` set cs \<subseteq> fst ` set (t_sessions t) \<Longrightarrow>
   t_added (foldl (track_controller n) t cs) = t_added t"
proof (induction cs arbitrary: t)
  case Nil
  then show ?case by simp
next
  case (Cons c cs)
  from Cons.prems have "''atc-'' @ c_callsign c \<in> fst ` set (t_sessions t)" by simp
  then obtain y where y: "map_of (t_sessions t) (''atc-'' @ c_callsign c) = Some y"
    by (metis map_of_eq_None_iff not_Some_eq)
  have a: "t_added (track_controller n t c) = t_added t"
    by (simp add: track_controller_known[OF y])
  have "(\<lambda>c. ''atc-'' @ c_callsign c) ` set cs \<subseteq> fst ` set (t_sessions (track_controller n t c))"
    using Cons.prems by (auto simp: track_controller_keys)
  from Cons.IH[OF this] a show ?case by simp
qed

lemma foldl_track_pilot_added:
  "(\<lambda>p. ''pilot-'' @ p_callsign p) ` set ps \<subseteq> fst ` set (t_sessions t) \<Longrightarrow>
   t_added (foldl (track_pilot n) t ps) = t_added t"
proof (induction ps arbitrary: t)
  case Nil
  then show ?case by simp
next
  case (Cons p ps)
  from Cons.prems have "''pilot-'' @ p_callsign p \<in> fst ` set (t_sessions t)" by simp
  then obtain y where y: "map_of (t_sessions t) (''pilot-'' @ p_callsign p) = Some y"
    by (metis map_of_eq_None_iff not_Some_eq)
  have a: "t_added (track_pilot n t p) = t_added t"
    by (simp add: track_pilot_known[OF y])
  have "(\<lambda>p. ''pilot-'' @ p_callsign p) ` set ps \<subseteq> fst ` set (t_sessions (track_pilot n t p))"
    using Cons.prems by (auto simp: track_pilot_keys)
  from Cons.IH[OF this] a show ?case by simp
qed

lemma track_all_added_known:
  assumes "observed_ids cs ps \<subseteq> fst ` set ss"
  shows "t_added (track_all n cs ps ss) = []"
proof -
  let ?t0 = "\<lparr>t_sessions = ss, t_added = [], t_seenIds = []\<rparr>"
  have c: "(\<lambda>c. ''atc-'' @ c_callsign c) ` set cs \<subseteq> fst ` set (t_sessions ?t0)"
    using assms by (auto simp: observed_ids_def)
  have p: "(\<lambda>p. ''pilot-'' @ p_callsign p) ` set ps
             \<subseteq> fst ` set (t_sessions (foldl (track_controller n) ?t0 cs))"
    using assms by (auto simp: observed_ids_def foldl_track_controller_keys)
  show ?thesis
    unfolding track_all_def
    by (simp only: foldl_track_pilot_added[OF p] foldl_track_controller_added[OF c]) simp
qed

lemma observed_kept:
  "observed_ids cs ps \<subseteq> fst ` set (sessions (r_store (updateSessions g env now nowIso cs ps s)))"
proof
  fix k assume k: "k \<in> observed_ids cs ps"
  then have "k \<in> fst ` set (t_sessions (track_all nowIso cs ps (sessions s)))"
    by (simp add: track_all_keys)
  then obtain e where e: "e \<in> set (t_sessions (track_all nowIso cs ps (sessions s)))" "fst e = k"
    by auto
  from k have "fst e \<notin> fst ` set (filter (absent_stale g now cs ps) (sessions s))"
    unfolding e(2) by (rule observed_not_closed)
  with e show "k \<in> fst ` set (sessions (r_store (updateSessions g env now nowIso cs ps s)))"
    unfolding updateSessions_sessions by force
qed

lemma second_run_added:
  "r_added (updateSessions g env2 now2 nowIso2 cs ps
              (r_store (updateSessions g env now nowIso cs ps s))) = []"
  by (simp only: updateSessions_added track_all_added_known[OF observed_kept])

lemma second_run_stale:
  "filter (absent_stale g now2 cs ps) (sessions (r_store (updateSessions g env now nowIso cs ps s))) =
   filter (\<lambda>e. absent_stale g now2 cs ps e
                \<and> fst e \<notin> fst ` set (filter (absent_stale g now cs ps) (sessions s))) (sessions s)"
proof -
  let ?A = "fst ` set (filter (absent_stale g now cs ps) (sessions s))"
  let ?t = "t_sessions (track_all nowIso cs ps (sessions s))"
  have "filter (absent_stale g now2 cs ps) (filter (\<lambda>e. fst e \<notin> ?A) ?t) =
        filter (\<lambda>e. now2 - g (cs_lastSeen (snd e)) > staleThreshold \<and> fst e \<notin> ?A)
          (filter (\<lambda>e. fst e \<notin> observed_ids cs ps) ?t)"
    by (simp only: filter_filter absent_stale_def) (rule filter_cong, auto)
  also have "\<dots> = filter (\<lambda>e. now2 - g (cs_lastSeen (snd e)) > staleThreshold \<and> fst e \<notin> ?A)
          (filter (\<lambda>e. fst e \<notin> observed_ids cs ps) (sessions s))"
    by (simp only: track_all_unseen)
  also have "\<dots> = filter (\<lambda>e. absent_stale g now2 cs ps e \<and> fst e \<notin> ?A) (sessions s)"
    by (simp only: filter_filter absent_stale_def) (rule filter_cong, auto)
  finally show ?thesis by (simp only: updateSessions_sessions)
qed

lemma key_closed_iff:
  assumes "distinct (map fst ss)" and "e \<in> set ss"
  shows "(fst e \<in> fst ` set (filter P ss)) = P e"
proof
  assume "fst e \<in> fst ` set (filter P ss)"
  then obtain e' where e': "e' \<in> set ss" "P e'" "fst e' = fst e" by auto
  from assms e' have "e' = e"
    by (metis eq_key_imp_eq_value prod.collapse)
  with e' show "P e" by simp
next
  assume "P e" with assms(2) show "fst e \<in> fst ` set (filter P ss)" by auto
qed

lemma second_run_removed:
  assumes "distinct (map fst (sessions s))"
  shows "r_removed (updateSessions g env2 now2 nowIso2 cs ps
              (r_store (updateSessions g env now nowIso cs ps s))) =
         map (\<lambda>e. (to_historical g (snd e))\<lparr>hs_removedAt := Some nowIso2\<rparr>)
           (filter (crossing g now now2 cs ps) (sessions s))"
proof -
  have "filter (\<lambda>e. absent_stale g now2 cs ps e
                \<and> fst e \<notin> fst ` set (filter (absent_stale g now cs ps) (sessions s))) (sessions s)
        = filter (crossing g now now2 cs ps) (sessions s)"
  proof (rule filter_cong[OF refl])
    fix e assume "e \<in> set (sessions s)"
    from key_closed_iff[OF assms this, of "absent_stale g now cs ps"]
    show "(absent_stale g now2 cs ps e
            \<and> fst e \<notin> fst ` set (filter (absent_stale g now cs ps) (sessions s)))
          = crossing g now now2 cs ps e"
      by (auto simp: absent_stale_def crossing_def)
  qed
  then show ?thesis
    by (simp add: updateSessions_removed closed_sessions_def second_run_stale comp_def)
qed

lemma second_run_same_now:
  "r_removed (updateSessions g env2 now nowIso2 cs ps
              (r_store (updateSessions g env now nowIso cs ps s))) = []"
proof -
  have "filter (\<lambda>e. absent_stale g now cs ps e
                \<and> fst e \<notin> fst ` set (filter (absent_stale g now cs ps) (sessions s))) (sessions s) = []"
    by (auto simp: filter_empty_conv)
  then show ?thesis
    by (simp add: updateSessions_removed closed_sessions_def second_run_stale)
qed

text \<open>
  Claim C2, as the code has it. \<open>updateSessions\<close> reads the clock itself, so two runs
  in a row on the same snapshot differ in \<open>now\<close>. The second run starts no session:
  every identity of the snapshot is in the map after the first and only has its
  \<open>lastSeen\<close> set again. It closes exactly the sessions that are absent from the
  snapshot and whose absence crosses the stale threshold between the two runs; it
  closes none when both runs read the same time.
\<close>

theorem repeated_snapshot:
  "r_added (updateSessions g env2 now2 nowIso2 cs ps
              (r_store (updateSessions g env now nowIso cs ps s))) = []
   \<and> (distinct (map fst (sessions s)) \<longrightarrow>
        r_removed (updateSessions g env2 now2 nowIso2 cs ps
              (r_store (updateSessions g env now nowIso cs ps s))) =
         map (\<lambda>e. (to_historical g (snd e))\<lparr>hs_removedAt := Some nowIso2\<rparr>)
           (filter (crossing g now now2 cs ps) (sessions s)))
   \<and> (now2 = now \<longrightarrow>
        r_removed (updateSessions g env2 now2 nowIso2 cs ps
              (r_store (updateSessions g env now nowIso cs ps s))) = [])"
  by (simp add: second_run_added second_run_removed second_run_same_now)

text \<open>
  The claim as stated fails: the tower, absent from the snapshot and last seen 110
  seconds before the first run, is closed by the second run on the same snapshot 15
  seconds later.
\<close>

theorem second_run_closes_counterexample:
  "r_removed (updateSessions example_getTime example_env 1704067415000 t215 [approach_entry] []
      (r_store (updateSessions example_getTime example_env 1704067400000 t200 [approach_entry] []
         tower_store)))
     = [(to_historical example_getTime tower_session)\<lparr>hs_removedAt := Some t215\<rparr>]"
proof -
  have d: "distinct (map fst (sessions tower_store))" by (simp add: tower_store_def)
  have "filter (crossing example_getTime 1704067400000 1704067415000 [approach_entry] [])
          (sessions tower_store) = [(''atc-OPKC_TWR'', tower_session)]"
    by (simp add: crossing_def tower_store_def observed_ids_def approach_entry_def
        tower_session_def example_getTime_def t90_def staleThreshold_def)
  with second_run_removed[OF d, of example_getTime example_env 1704067415000 t215
      "[approach_entry]" "[]" example_env 1704067400000 t200]
  show ?thesis by simp
qed

theorem repeated_snapshot_witness:
  "r_added (updateSessions example_getTime example_env 1704067415000 t215 [approach_entry] []
      (r_store (updateSessions example_getTime example_env 1704067400000 t200 [approach_entry] []
         tower_store))) = []
   \<and> distinct (map fst (sessions tower_store))
   \<and> r_removed (updateSessions example_getTime example_env 1704067415000 t215 [approach_entry] []
      (r_store (updateSessions example_getTime example_env 1704067400000 t200 [approach_entry] []
         tower_store)))
       = [(to_historical example_getTime tower_session)\<lparr>hs_removedAt := Some t215\<rparr>]
   \<and> r_removed (updateSessions example_getTime example_env 1704067400000 t215 [approach_entry] []
      (r_store (updateSessions example_getTime example_env 1704067400000 t200 [approach_entry] []
         tower_store))) = []"
proof -
  note i1 = repeated_snapshot[of example_getTime example_env 1704067415000 t215
      "[approach_entry]" "[]" example_env 1704067400000 t200 tower_store]
  note i2 = repeated_snapshot[of example_getTime example_env 1704067400000 t215
      "[approach_entry]" "[]" example_env 1704067400000 t200 tower_store]
  have d: "distinct (map fst (sessions tower_store))" by (simp add: tower_store_def)
  have f: "filter (crossing example_getTime 1704067400000 1704067415000 [approach_entry] [])
          (sessions tower_store) = [(''atc-OPKC_TWR'', tower_session)]"
    by (simp add: crossing_def tower_store_def observed_ids_def approach_entry_def
        tower_session_def example_getTime_def t90_def staleThreshold_def)
  from i1 have a: "r_added (updateSessions example_getTime example_env 1704067415000 t215
      [approach_entry] [] (r_store (updateSessions example_getTime example_env 1704067400000 t200
        [approach_entry] [] tower_store))) = []" by blast
  from i1 d have "r_removed (updateSessions example_getTime example_env 1704067415000 t215
      [approach_entry] [] (r_store (updateSessions example_getTime example_env 1704067400000 t200
        [approach_entry] [] tower_store))) =
      map (\<lambda>e. (to_historical example_getTime (snd e))\<lparr>hs_removedAt := Some t215\<rparr>)
        (filter (crossing example_getTime 1704067400000 1704067415000 [approach_entry] [])
           (sessions tower_store))" by blast
  then have b: "r_removed (updateSessions example_getTime example_env 1704067415000 t215
      [approach_entry] [] (r_store (updateSessions example_getTime example_env 1704067400000 t200
        [approach_entry] [] tower_store)))
       = [(to_historical example_getTime tower_session)\<lparr>hs_removedAt := Some t215\<rparr>]"
    by (simp add: f)
  from i2 have c: "r_removed (updateSessions example_getTime example_env 1704067400000 t215
      [approach_entry] [] (r_store (updateSessions example_getTime example_env 1704067400000 t200
        [approach_entry] [] tower_store))) = []" by blast
  from a d b c show ?thesis by blast
qed

section \<open>Stale eviction over a run of cycles\<close>

lemma wf_sessions_filter: "wf_sessions ss \<Longrightarrow> wf_sessions (filter Q ss)"
  by (simp add: wf_sessions_def distinct_map_filter list_all_iff)

lemma wf_set_lastSeen:
  assumes "wf_sessions ss"
  shows "wf_sessions (set_lastSeen sid n ss)"
proof -
  from assms have "distinct (map fst (set_lastSeen sid n ss))"
    by (simp add: wf_sessions_def)
  moreover from assms
  have "list_all (\<lambda>e. fst e = session_key (cs_type (snd e)) (cs_callsign (snd e)))
          (set_lastSeen sid n ss)"
    by (auto simp: wf_sessions_def list_all_iff set_lastSeen_def)
  ultimately show ?thesis by (simp add: wf_sessions_def)
qed

lemma wf_track_controller:
  assumes "wf_sessions (t_sessions t)"
  shows "wf_sessions (t_sessions (track_controller n t c))"
proof (cases "map_of (t_sessions t) (''atc-'' @ c_callsign c)")
  case None
  then have "''atc-'' @ c_callsign c \<notin> set (map fst (t_sessions t))"
    by (simp add: map_of_eq_None_iff)
  with assms None show ?thesis
    by (simp add: track_controller_def Let_def wf_sessions_def session_key_def)
next
  case (Some y)
  show ?thesis
    by (simp add: track_controller_known[OF Some] wf_set_lastSeen[OF assms])
qed

lemma wf_track_pilot:
  assumes "wf_sessions (t_sessions t)"
  shows "wf_sessions (t_sessions (track_pilot n t p))"
proof (cases "map_of (t_sessions t) (''pilot-'' @ p_callsign p)")
  case None
  then have "''pilot-'' @ p_callsign p \<notin> set (map fst (t_sessions t))"
    by (simp add: map_of_eq_None_iff)
  with assms None show ?thesis
    by (simp add: track_pilot_def Let_def wf_sessions_def session_key_def)
next
  case (Some y)
  show ?thesis
    by (simp add: track_pilot_known[OF Some] wf_set_lastSeen[OF assms])
qed

lemma wf_foldl_track_controller:
  "wf_sessions (t_sessions t) \<Longrightarrow> wf_sessions (t_sessions (foldl (track_controller n) t cs))"
  by (induction cs arbitrary: t) (simp_all add: wf_track_controller)

lemma wf_foldl_track_pilot:
  "wf_sessions (t_sessions t) \<Longrightarrow> wf_sessions (t_sessions (foldl (track_pilot n) t ps))"
  by (induction ps arbitrary: t) (simp_all add: wf_track_pilot)

lemma wf_track_all: "wf_sessions ss \<Longrightarrow> wf_sessions (t_sessions (track_all n cs ps ss))"
  by (simp add: track_all_def wf_foldl_track_pilot wf_foldl_track_controller)

lemma wf_updateSessions:
  "wf_sessions (sessions s) \<Longrightarrow>
   wf_sessions (sessions (r_store (updateSessions g env now nowIso cs ps s)))"
  by (simp only: updateSessions_sessions wf_sessions_filter wf_track_all)

lemma wf_same_identity:
  assumes "wf_sessions ss" and "(k, v) \<in> set ss" and "e \<in> set ss"
    and "cs_type (snd e) = cs_type v" and "cs_callsign (snd e) = cs_callsign v"
  shows "e = (k, v)"
proof -
  from assms(1,2) have k: "k = session_key (cs_type v) (cs_callsign v)"
    by (auto simp: wf_sessions_def list_all_iff)
  from assms(1,3) have "fst e = session_key (cs_type (snd e)) (cs_callsign (snd e))"
    by (auto simp: wf_sessions_def list_all_iff)
  with k assms(4,5) have "fst e = k" by simp
  moreover from assms(1) have "distinct (map fst ss)" by (simp add: wf_sessions_def)
  ultimately show ?thesis
    using assms(2,3) by (metis eq_key_imp_eq_value prod.collapse)
qed

lemma filter_single:
  "distinct (map fst ss) \<Longrightarrow> (k, v) \<in> set ss \<Longrightarrow>
   (\<And>e. e \<in> set ss \<Longrightarrow> Q e \<Longrightarrow> e = (k, v)) \<Longrightarrow>
   filter Q ss = (if Q (k, v) then [(k, v)] else [])"
proof (induction ss)
  case Nil
  then show ?case by simp
next
  case (Cons a ss)
  show ?case
  proof (cases "a = (k, v)")
    case True
    with Cons.prems(1) have notin: "(k, v) \<notin> set ss" by force
    have "filter Q ss = []"
    proof (rule ccontr)
      assume "filter Q ss \<noteq> []"
      then obtain e where e: "e \<in> set ss" "Q e" by (auto simp: filter_empty_conv)
      with Cons.prems(3)[of e] have "e = (k, v)" by simp
      with e notin show False by simp
    qed
    with True show ?thesis by simp
  next
    case False
    with Cons.prems(2) have mem: "(k, v) \<in> set ss" by simp
    from Cons.prems(3)[of a] False have nq: "\<not> Q a" by auto
    from Cons.prems(1) have d: "distinct (map fst ss)" by simp
    have "filter Q ss = (if Q (k, v) then [(k, v)] else [])"
      by (rule Cons.IH[OF d mem]) (use Cons.prems(3) in auto)
    with nq show ?thesis by simp
  qed
qed

lemma closures_of_removed:
  "closures_of ty callsign (updateSessions g env now nowIso cs ps s) =
     map (\<lambda>e. (to_historical g (snd e))\<lparr>hs_removedAt := Some nowIso\<rparr>)
       (filter (\<lambda>e. absent_stale g now cs ps e
                    \<and> cs_type (snd e) = ty \<and> cs_callsign (snd e) = callsign) (sessions s))"
  by (simp add: closures_of_def updateSessions_removed closed_sessions_def filter_map comp_def
      to_historical_def conj_commute conj_left_commute)

lemma present_step_closures:
  assumes wf: "wf_sessions (sessions s)" and mem: "(k, v) \<in> set (sessions s)"
    and ab: "k \<notin> observed_ids cs ps"
  shows "closures_of (cs_type v) (cs_callsign v) (updateSessions g env now nowIso cs ps s) =
           (if now - g (cs_lastSeen v) > staleThreshold
            then [(to_historical g v)\<lparr>hs_removedAt := Some nowIso\<rparr>] else [])"
proof -
  let ?Q = "\<lambda>e. absent_stale g now cs ps e
                \<and> cs_type (snd e) = cs_type v \<and> cs_callsign (snd e) = cs_callsign v"
  from wf have d: "distinct (map fst (sessions s))" by (simp add: wf_sessions_def)
  have "filter ?Q (sessions s) = (if ?Q (k, v) then [(k, v)] else [])"
    by (rule filter_single[OF d mem]) (use wf_same_identity[OF wf mem] in blast)
  moreover have "?Q (k, v) = (now - g (cs_lastSeen v) > staleThreshold)"
    using ab by (simp add: absent_stale_def)
  ultimately show ?thesis by (simp add: closures_of_removed)
qed

lemma present_step_kept:
  assumes wf: "wf_sessions (sessions s)" and mem: "(k, v) \<in> set (sessions s)"
    and ab: "k \<notin> observed_ids cs ps"
    and grace: "now - g (cs_lastSeen v) \<le> staleThreshold"
  shows "(k, v) \<in> set (sessions (r_store (updateSessions g env now nowIso cs ps s)))"
proof -
  from wf have d: "distinct (map fst (sessions s))" by (simp add: wf_sessions_def)
  from d mem have m: "map_of (sessions s) k = Some v" by simp
  have "\<not> absent_stale g now cs ps (k, v)" using grace by (simp add: absent_stale_def)
  with key_closed_iff[OF d mem, of "absent_stale g now cs ps"]
  have "k \<notin> fst ` set (filter (absent_stale g now cs ps) (sessions s))" by simp
  then have "map_of (sessions (r_store (updateSessions g env now nowIso cs ps s))) k =
             map_of (t_sessions (track_all nowIso cs ps (sessions s))) k"
    unfolding updateSessions_sessions by (rule map_of_filter_keys)
  also have "\<dots> = Some v"
    using track_all_map_of[OF m, of nowIso cs ps] ab by simp
  finally show ?thesis by (rule map_of_SomeD)
qed

lemma filtered_key_gone:
  "k \<in> A \<Longrightarrow> k \<notin> fst ` set (filter (\<lambda>e. fst e \<notin> A) xs)"
  by auto

lemma present_step_gone:
  assumes wf: "wf_sessions (sessions s)" and mem: "(k, v) \<in> set (sessions s)"
    and ab: "k \<notin> observed_ids cs ps"
    and stale: "now - g (cs_lastSeen v) > staleThreshold"
  shows "k \<notin> fst ` set (sessions (r_store (updateSessions g env now nowIso cs ps s)))"
proof -
  have "absent_stale g now cs ps (k, v)" using ab stale by (simp add: absent_stale_def)
  with mem have "k \<in> fst ` set (filter (absent_stale g now cs ps) (sessions s))" by force
  then show ?thesis unfolding updateSessions_sessions by (rule filtered_key_gone)
qed

lemma gone_step:
  assumes wf: "wf_sessions (sessions s)" and nk: "k \<notin> fst ` set (sessions s)"
    and ab: "k \<notin> observed_ids cs ps" and key: "k = session_key ty callsign"
  shows "k \<notin> fst ` set (sessions (r_store (updateSessions g env now nowIso cs ps s)))"
    and "closures_of ty callsign (updateSessions g env now nowIso cs ps s) = []"
proof -
  have "fst ` set (sessions (r_store (updateSessions g env now nowIso cs ps s)))
          \<subseteq> fst ` set (t_sessions (track_all nowIso cs ps (sessions s)))"
    unfolding updateSessions_sessions by auto
  with nk ab show "k \<notin> fst ` set (sessions (r_store (updateSessions g env now nowIso cs ps s)))"
    by (auto simp: track_all_keys)
  have "\<And>e. e \<in> set (sessions s) \<Longrightarrow>
          \<not> (cs_type (snd e) = ty \<and> cs_callsign (snd e) = callsign)"
  proof
    fix e assume e: "e \<in> set (sessions s)"
      and i: "cs_type (snd e) = ty \<and> cs_callsign (snd e) = callsign"
    from wf e have "fst e = session_key (cs_type (snd e)) (cs_callsign (snd e))"
      by (auto simp: wf_sessions_def list_all_iff)
    with i key have "fst e = k" by simp
    with e nk show False by force
  qed
  then show "closures_of ty callsign (updateSessions g env now nowIso cs ps s) = []"
    by (auto simp: closures_of_removed filter_empty_conv)
qed

lemma gone_cycles:
  "wf_sessions (sessions s) \<Longrightarrow> k \<notin> fst ` set (sessions s) \<Longrightarrow> k = session_key ty callsign \<Longrightarrow>
   (\<forall>c \<in> set post. k \<notin> observed_ids (cy_controllers c) (cy_pilots c)) \<Longrightarrow>
   map (closures_of ty callsign) (reconcile_all g env s post) = replicate (length post) []"
proof (induction post arbitrary: s)
  case Nil
  then show ?case by simp
next
  case (Cons c post)
  let ?r = "updateSessions g env (cy_now c) (cy_nowIso c) (cy_controllers c) (cy_pilots c) s"
  from Cons.prems(4) have ab: "k \<notin> observed_ids (cy_controllers c) (cy_pilots c)" by simp
  note st = gone_step[OF Cons.prems(1,2) ab Cons.prems(3), of g env "cy_now c" "cy_nowIso c"]
  have "map (closures_of ty callsign) (reconcile_all g env (r_store ?r) post)
          = replicate (length post) []"
    by (rule Cons.IH[OF wf_updateSessions[OF Cons.prems(1)] st(1) Cons.prems(3)])
       (use Cons.prems(4) in simp)
  with st(2) show ?case by (simp add: Let_def)
qed

lemma stale_eviction:
  "wf_sessions (sessions s) \<Longrightarrow> (k, v) \<in> set (sessions s) \<Longrightarrow>
   (\<forall>x \<in> set (pre @ c # post). k \<notin> observed_ids (cy_controllers x) (cy_pilots x)) \<Longrightarrow>
   (\<forall>x \<in> set pre. cy_now x - g (cs_lastSeen v) \<le> staleThreshold) \<Longrightarrow>
   cy_now c - g (cs_lastSeen v) > staleThreshold \<Longrightarrow>
   map (closures_of (cs_type v) (cs_callsign v)) (reconcile_all g env s (pre @ c # post)) =
     replicate (length pre) [] @
     [(to_historical g v)\<lparr>hs_removedAt := Some (cy_nowIso c)\<rparr>] # replicate (length post) []
   \<and> map_of (sessions (r_store (reconcile_all g env s (pre @ c # post) ! length pre))) k = None"
proof (induction pre arbitrary: s)
  case Nil
  let ?r = "updateSessions g env (cy_now c) (cy_nowIso c) (cy_controllers c) (cy_pilots c) s"
  from Nil.prems(3) have ab: "k \<notin> observed_ids (cy_controllers c) (cy_pilots c)" by simp
  from Nil.prems(1,2) have key: "k = session_key (cs_type v) (cs_callsign v)"
    by (auto simp: wf_sessions_def list_all_iff)
  have cl: "closures_of (cs_type v) (cs_callsign v) ?r =
              [(to_historical g v)\<lparr>hs_removedAt := Some (cy_nowIso c)\<rparr>]"
    using present_step_closures[OF Nil.prems(1,2) ab, where g = g and now = "cy_now c"
        and env = env and nowIso = "cy_nowIso c"] Nil.prems(5)
    by simp
  have gone: "k \<notin> fst ` set (sessions (r_store ?r))"
    by (rule present_step_gone[where g = g and now = "cy_now c", OF Nil.prems(1,2) ab Nil.prems(5)])
  have "map (closures_of (cs_type v) (cs_callsign v)) (reconcile_all g env (r_store ?r) post)
          = replicate (length post) []"
    by (rule gone_cycles[OF wf_updateSessions[OF Nil.prems(1)] gone key])
       (use Nil.prems(3) in simp)
  moreover from gone have "map_of (sessions (r_store ?r)) k = None"
    by (simp add: map_of_eq_None_iff)
  ultimately show ?case using cl by (simp add: Let_def)
next
  case (Cons a pre)
  let ?r = "updateSessions g env (cy_now a) (cy_nowIso a) (cy_controllers a) (cy_pilots a) s"
  from Cons.prems(3) have ab: "k \<notin> observed_ids (cy_controllers a) (cy_pilots a)" by simp
  from Cons.prems(4) have gr: "cy_now a - g (cs_lastSeen v) \<le> staleThreshold" by simp
  have cl: "closures_of (cs_type v) (cs_callsign v) ?r = []"
    using present_step_closures[OF Cons.prems(1,2) ab, where g = g and now = "cy_now a"
        and env = env and nowIso = "cy_nowIso a"] gr
    by simp
  have kept: "(k, v) \<in> set (sessions (r_store ?r))"
    by (rule present_step_kept[where g = g and now = "cy_now a", OF Cons.prems(1,2) ab gr])
  have "map (closures_of (cs_type v) (cs_callsign v))
          (reconcile_all g env (r_store ?r) (pre @ c # post)) =
        replicate (length pre) [] @
        [(to_historical g v)\<lparr>hs_removedAt := Some (cy_nowIso c)\<rparr>] # replicate (length post) []
        \<and> map_of (sessions (r_store (reconcile_all g env (r_store ?r) (pre @ c # post) ! length pre))) k
            = None"
    by (rule Cons.IH[OF wf_updateSessions[OF Cons.prems(1)] kept _ _ Cons.prems(5)])
       (use Cons.prems(3,4) in simp_all)
  with cl show ?case by (simp add: Let_def)
qed

text \<open>
  Claim C1. An open session whose identity is absent from every snapshot of a run of
  cycles is closed exactly once: in no cycle while \<open>now - lastSeen\<close> is within the
  threshold, in the first cycle where it strictly exceeds it, and in no cycle after.
  The closed record has \<open>endTime\<close> equal to the session's \<open>lastSeen\<close>, not the
  current time, and the session is gone from the map after that same cycle.
\<close>

theorem stale_session_closed_once:
  assumes "wf_sessions (sessions s)" and "(k, v) \<in> set (sessions s)"
    and "\<forall>x \<in> set (pre @ c # post). k \<notin> observed_ids (cy_controllers x) (cy_pilots x)"
    and "\<forall>x \<in> set pre. cy_now x - g (cs_lastSeen v) \<le> staleThreshold"
    and "cy_now c - g (cs_lastSeen v) > staleThreshold"
  shows "map (closures_of (cs_type v) (cs_callsign v)) (reconcile_all g env s (pre @ c # post)) =
           replicate (length pre) [] @
           [(to_historical g v)\<lparr>hs_removedAt := Some (cy_nowIso c)\<rparr>] # replicate (length post) []
         \<and> hs_endTime ((to_historical g v)\<lparr>hs_removedAt := Some (cy_nowIso c)\<rparr>) = cs_lastSeen v
         \<and> map_of (sessions (r_store (reconcile_all g env s (pre @ c # post) ! length pre))) k = None"
proof -
  have "hs_endTime ((to_historical g v)\<lparr>hs_removedAt := Some (cy_nowIso c)\<rparr>) = cs_lastSeen v"
    by (simp add: to_historical_def)
  with stale_eviction[where g = g and pre = pre and c = c and post = post and env = env,
      OF assms(1,2,3,4,5)] show ?thesis by blast
qed

theorem stale_session_closed_once_witness:
  "wf_sessions (sessions tower_store)
   \<and> (''atc-OPKC_TWR'', tower_session) \<in> set (sessions tower_store)
   \<and> cy_now cycle_200 - example_getTime (cs_lastSeen tower_session) \<le> staleThreshold
   \<and> cy_now cycle_215 - example_getTime (cs_lastSeen tower_session) > staleThreshold
   \<and> map (closures_of Controller ''OPKC_TWR'')
        (reconcile_all example_getTime example_env tower_store [cycle_200, cycle_215, cycle_215]) =
      [[], [(to_historical example_getTime tower_session)\<lparr>hs_removedAt := Some t215\<rparr>], []]
   \<and> hs_endTime ((to_historical example_getTime tower_session)\<lparr>hs_removedAt := Some t215\<rparr>) = t90
   \<and> map_of (sessions (r_store (reconcile_all example_getTime example_env tower_store
        [cycle_200, cycle_215, cycle_215] ! 1))) ''atc-OPKC_TWR'' = None"
proof -
  have wf: "wf_sessions (sessions tower_store)"
    by (simp add: wf_sessions_def tower_store_def tower_session_def session_key_def)
  have mem: "(''atc-OPKC_TWR'', tower_session) \<in> set (sessions tower_store)"
    by (simp add: tower_store_def)
  have ab: "\<forall>x \<in> set ([cycle_200] @ cycle_215 # [cycle_215]).
              ''atc-OPKC_TWR'' \<notin> observed_ids (cy_controllers x) (cy_pilots x)"
    by (simp add: cycle_200_def cycle_215_def observed_ids_def approach_entry_def)
  have gr: "\<forall>x \<in> set [cycle_200].
              cy_now x - example_getTime (cs_lastSeen tower_session) \<le> staleThreshold"
    by (simp add: cycle_200_def tower_session_def example_getTime_def t90_def staleThreshold_def)
  have st: "cy_now cycle_215 - example_getTime (cs_lastSeen tower_session) > staleThreshold"
    by (simp add: cycle_215_def tower_session_def example_getTime_def t90_def staleThreshold_def)
  have ty: "cs_type tower_session = Controller" "cs_callsign tower_session = ''OPKC_TWR''"
    "cs_lastSeen tower_session = t90" "cy_nowIso cycle_215 = t215"
    by (simp_all add: tower_session_def cycle_215_def)
  from stale_session_closed_once[where g = example_getTime and pre = "[cycle_200]"
      and c = cycle_215 and post = "[cycle_215]" and env = example_env, OF wf mem ab gr st]
    gr st wf mem
  show ?thesis by (simp add: ty)
qed

section \<open>Pseudo-sessions in the aggregates\<close>

lemma count_session_atis:
  "hs_type a = Controller \<Longrightarrow> is_atis (hs_callsign a) \<Longrightarrow> count_session a b = b"
  by (simp add: count_session_def)

lemma count_session_normal:
  "hs_type n = Controller \<Longrightarrow> \<not> is_atis (hs_callsign n) \<Longrightarrow>
   count_session n zero_bucket =
     \<lparr>controllerMinutes = hs_durationMinutes n, controllerSessions = 1,
      pilotMinutes = 0, pilotSessions = 0\<rparr>"
  by (simp add: count_session_def zero_bucket_def)

lemma set_getAggregatedStats:
  "set (getAggregatedStats w gb hist) = set (foldl (group_session w gb) [] hist)"
  by (simp add: getAggregatedStats_def)

lemma grouped_pair:
  assumes "hs_type a = Controller" "is_atis (hs_callsign a)"
    and "hs_type n = Controller" "\<not> is_atis (hs_callsign n)"
    and "hist = [a, n] \<or> hist = [n, a]"
  shows "set (foldl (group_session w gb) [] hist) =
           insert (period_of w gb n, count_session n zero_bucket)
             (if period_of w gb a = period_of w gb n then {}
              else {(period_of w gb a, zero_bucket)})"
  using assms(5)
proof
  assume "hist = [a, n]"
  then show ?thesis
    by (auto simp: group_session_def Let_def count_session_atis[OF assms(1,2)] zero_bucket_def)
next
  assume "hist = [n, a]"
  then show ?thesis
    by (auto simp: group_session_def Let_def count_session_atis[OF assms(1,2)] zero_bucket_def)
qed

lemma length_grouped_pair:
  assumes "hist = [a, n] \<or> hist = [n, a]"
  shows "length (foldl (group_session w gb) [] hist) =
           (if period_of w gb a = period_of w gb n then 1 else 2)"
  using assms by (auto simp: group_session_def Let_def)

lemma recalculate_pair:
  assumes "hs_type a = Controller" "is_atis (hs_callsign a)"
    and "hs_type n = Controller" "\<not> is_atis (hs_callsign n)"
    and "hist = [a, n] \<or> hist = [n, a]"
  shows "recalculate_stats hist =
           \<lparr>totalControllerMinutes = hs_durationMinutes n, totalPilotMinutes = 0,
            totalControllerSessions = 1, totalPilotSessions = 0\<rparr>"
  using assms by (auto simp: recalculate_stats_def)

lemma is_atis_lower: "is_atis ''opkc_atis''"
  by code_simp

lemma member_sessions_pair:
  assumes "hs_type a = Controller" "hs_type n = Controller" "hs_cid a = cid" "hs_cid n = cid"
    and "history s = [a, n] \<or> history s = [n, a]" and "sessions s = []"
    and "controllerSession (db s) = []"
  shows "mr_totalMinutes (member_sessions g f env now nowIso s cid)
           = hs_durationMinutes a + hs_durationMinutes n"
    and "mr_totalSessions (member_sessions g f env now nowIso s cid) = 2"
  using assms
  by (auto simp: member_sessions_def member_db_sessions_def add_cache_session_def Let_def
      sort_desc_def)

text \<open>
  The claim as stated fails at the member detail route. With the two example sessions of 30
  minutes in the history, one of them an ATIS position, the route reports 60 minutes and
  2 sessions for their member, and lists the ATIS callsign with its 30 minutes.
\<close>

theorem member_route_counts_atis_counterexample:
  "history pair_store = [atis_record, tower_record]
   \<and> hs_type atis_record = Controller \<and> is_atis (hs_callsign atis_record)
   \<and> hs_type tower_record = Controller \<and> \<not> is_atis (hs_callsign tower_record)
   \<and> hs_durationMinutes atis_record = 30 \<and> hs_durationMinutes tower_record = 30
   \<and> mr_totalMinutes (member_sessions example_getTime example_toISOString example_env
        1704067415000 t215 pair_store 1234567) = 60
   \<and> mr_totalSessions (member_sessions example_getTime example_toISOString example_env
        1704067415000 t215 pair_store 1234567) = 2
   \<and> mr_callsigns (member_sessions example_getTime example_toISOString example_env
        1704067415000 t215 pair_store 1234567) = [(''OPKC_TWR'', 30, 1), (''opkc_atis'', 30, 1)]
   \<and> map dg_totalMinutes (mr_sessionsByDate (member_sessions example_getTime
        example_toISOString example_env 1704067415000 t215 pair_store 1234567)) = [30, 30]"
proof -
  have 1: "history pair_store = [atis_record, tower_record]" by (simp add: pair_store_def)
  have 2: "hs_type atis_record = Controller" "hs_type tower_record = Controller"
    "hs_durationMinutes atis_record = 30" "hs_durationMinutes tower_record = 30"
    by (simp_all add: atis_record_def tower_record_def)
  have 3: "is_atis (hs_callsign atis_record)" by (simp add: atis_record_def is_atis_lower)
  have 4: "\<not> is_atis (hs_callsign tower_record)"
    by (simp add: tower_record_def is_atis_examples)
  have 5: "mr_totalMinutes (member_sessions example_getTime example_toISOString example_env
        1704067415000 t215 pair_store 1234567) = 60
   \<and> mr_totalSessions (member_sessions example_getTime example_toISOString example_env
        1704067415000 t215 pair_store 1234567) = 2
   \<and> mr_callsigns (member_sessions example_getTime example_toISOString example_env
        1704067415000 t215 pair_store 1234567) = [(''OPKC_TWR'', 30, 1), (''opkc_atis'', 30, 1)]
   \<and> map dg_totalMinutes (mr_sessionsByDate (member_sessions example_getTime
        example_toISOString example_env 1704067415000 t215 pair_store 1234567)) = [30, 30]"
    by (simp add: member_sessions_def member_db_sessions_def add_cache_session_def Let_def
        sort_desc_def pair_store_def atis_record_def tower_record_def empty_db_def
        add_callsign_def add_date_def)
  from 1 2 3 4 5 show ?thesis by blast
qed

text \<open>
  Claim C6, as the code has it. For a history of one controller session whose callsign
  ends in \<open>_ATIS\<close> (in any case of the letters) and one normal controller session of
  the same duration, in either order, the statistics count the normal session only: the
  totals that the stats route and the synchronizer recompute from the list, the buckets
  of \<open>getAggregatedStats\<close> for every grouping (the normal session's period holds its
  minutes and one session; the ATIS session's period, when it is another one, holds
  zeros), and the counters incremented at ingestion. The member detail route includes
  the ATIS session: for a member who controlled both sessions, with no open session and
  no row in the database, it totals the minutes of both and counts two sessions.
\<close>

theorem pseudo_session_in_aggregates:
  assumes "hs_type a = Controller" and "is_atis (hs_callsign a)"
    and "hs_type n = Controller" and "\<not> is_atis (hs_callsign n)"
    and "hs_durationMinutes a = hs_durationMinutes n"
    and "hist = [a, n] \<or> hist = [n, a]"
  shows "recalculate_stats hist =
           \<lparr>totalControllerMinutes = hs_durationMinutes n, totalPilotMinutes = 0,
            totalControllerSessions = 1, totalPilotSessions = 0\<rparr>
         \<and> set (getAggregatedStats weekStart groupBy hist) =
             insert (period_of weekStart groupBy n,
                     \<lparr>controllerMinutes = hs_durationMinutes n, controllerSessions = 1,
                      pilotMinutes = 0, pilotSessions = 0\<rparr>)
               (if period_of weekStart groupBy a = period_of weekStart groupBy n then {}
                else {(period_of weekStart groupBy a, zero_bucket)})
         \<and> length (getAggregatedStats weekStart groupBy hist) =
             (if period_of weekStart groupBy a = period_of weekStart groupBy n then 1 else 2)
         \<and> foldl (\<lambda>st h. bump_stats h st) zero_stats hist =
             \<lparr>totalControllerMinutes = hs_durationMinutes n, totalPilotMinutes = 0,
              totalControllerSessions = 1, totalPilotSessions = 0\<rparr>
         \<and> (hs_cid a = cid \<and> hs_cid n = cid \<and> history s = hist \<and> sessions s = []
              \<and> controllerSession (db s) = [] \<longrightarrow>
            mr_totalMinutes (member_sessions getTime toISOString env now nowIso s cid)
              = 2 * hs_durationMinutes n
            \<and> mr_totalSessions (member_sessions getTime toISOString env now nowIso s cid) = 2)"
proof -
  note r = recalculate_pair[OF assms(1,2,3,4,6)]
  have g: "set (getAggregatedStats weekStart groupBy hist) =
             insert (period_of weekStart groupBy n,
                     \<lparr>controllerMinutes = hs_durationMinutes n, controllerSessions = 1,
                      pilotMinutes = 0, pilotSessions = 0\<rparr>)
               (if period_of weekStart groupBy a = period_of weekStart groupBy n then {}
                else {(period_of weekStart groupBy a, zero_bucket)})"
    unfolding set_getAggregatedStats grouped_pair[OF assms(1,2,3,4,6)]
    by (simp only: count_session_normal[OF assms(3,4)])
  have l: "length (getAggregatedStats weekStart groupBy hist) =
             (if period_of weekStart groupBy a = period_of weekStart groupBy n then 1 else 2)"
    using length_grouped_pair[OF assms(6), of weekStart groupBy]
    by (simp add: getAggregatedStats_def)
  have "foldl (\<lambda>st h. bump_stats h st) zero_stats hist =
          add_stats zero_stats (recalculate_stats hist)"
    by (rule foldl_bump_stats)
  then have b: "foldl (\<lambda>st h. bump_stats h st) zero_stats hist =
             \<lparr>totalControllerMinutes = hs_durationMinutes n, totalPilotMinutes = 0,
              totalControllerSessions = 1, totalPilotSessions = 0\<rparr>"
    by (simp add: r add_stats_def zero_stats_def)
  have m: "hs_cid a = cid \<and> hs_cid n = cid \<and> history s = hist \<and> sessions s = []
              \<and> controllerSession (db s) = [] \<longrightarrow>
            mr_totalMinutes (member_sessions getTime toISOString env now nowIso s cid)
              = 2 * hs_durationMinutes n
            \<and> mr_totalSessions (member_sessions getTime toISOString env now nowIso s cid) = 2"
  proof
    assume h: "hs_cid a = cid \<and> hs_cid n = cid \<and> history s = hist \<and> sessions s = []
              \<and> controllerSession (db s) = []"
    with assms(6) have o: "history s = [a, n] \<or> history s = [n, a]" by simp
    from h have c: "hs_cid a = cid" "hs_cid n = cid" "sessions s = []"
      "controllerSession (db s) = []" by simp_all
    from member_sessions_pair[where g = getTime and f = toISOString and env = env
        and now = now and nowIso = nowIso, OF assms(1) assms(3) c(1) c(2) o c(3) c(4)] assms(5)
    show "mr_totalMinutes (member_sessions getTime toISOString env now nowIso s cid)
              = 2 * hs_durationMinutes n
            \<and> mr_totalSessions (member_sessions getTime toISOString env now nowIso s cid) = 2"
      by simp
  qed
  from r g l b m show ?thesis by blast
qed

theorem pseudo_session_in_aggregates_witness:
  "hs_type atis_record = Controller \<and> is_atis (hs_callsign atis_record)
   \<and> hs_type tower_record = Controller \<and> \<not> is_atis (hs_callsign tower_record)
   \<and> hs_durationMinutes atis_record = hs_durationMinutes tower_record
   \<and> recalculate_stats [atis_record, tower_record] =
       \<lparr>totalControllerMinutes = 30, totalPilotMinutes = 0,
        totalControllerSessions = 1, totalPilotSessions = 0\<rparr>
   \<and> set (getAggregatedStats (\<lambda>d. d) Day [atis_record, tower_record]) =
       {(''2024-01-02'', \<lparr>controllerMinutes = 30, controllerSessions = 1,
                           pilotMinutes = 0, pilotSessions = 0\<rparr>),
        (''2024-01-01'', zero_bucket)}
   \<and> set (getAggregatedStats (\<lambda>d. d) Month [atis_record, tower_record]) =
       {(''2024-01'', \<lparr>controllerMinutes = 30, controllerSessions = 1,
                        pilotMinutes = 0, pilotSessions = 0\<rparr>)}
   \<and> hs_cid atis_record = 1234567 \<and> hs_cid tower_record = 1234567
   \<and> history pair_store = [atis_record, tower_record] \<and> sessions pair_store = []
   \<and> controllerSession (db pair_store) = []
   \<and> mr_totalMinutes (member_sessions example_getTime example_toISOString example_env
        1704067415000 t215 pair_store 1234567) = 60
   \<and> mr_totalSessions (member_sessions example_getTime example_toISOString example_env
        1704067415000 t215 pair_store 1234567) = 2"
proof -
  have 1: "hs_type atis_record = Controller" by (simp add: atis_record_def)
  have 2: "is_atis (hs_callsign atis_record)" by (simp add: atis_record_def is_atis_lower)
  have 3: "hs_type tower_record = Controller" by (simp add: tower_record_def)
  have 4: "\<not> is_atis (hs_callsign tower_record)"
    by (simp add: tower_record_def is_atis_examples)
  have 5: "hs_durationMinutes atis_record = hs_durationMinutes tower_record"
    by (simp add: atis_record_def tower_record_def)
  have 6: "[atis_record, tower_record] = [atis_record, tower_record]
           \<or> [atis_record, tower_record] = [tower_record, atis_record]" by simp
  have 7: "hs_cid atis_record = 1234567" "hs_cid tower_record = 1234567"
    "history pair_store = [atis_record, tower_record]" "sessions pair_store = []"
    "controllerSession (db pair_store) = []"
    by (simp_all add: atis_record_def tower_record_def pair_store_def empty_db_def)
  note d = pseudo_session_in_aggregates[OF 1 2 3 4 5 6,
      where weekStart = "\<lambda>d. d" and groupBy = Day and cid = 1234567 and s = pair_store
        and getTime = example_getTime and toISOString = example_toISOString
        and env = example_env and now = 1704067415000 and nowIso = t215]
  note m = pseudo_session_in_aggregates[OF 1 2 3 4 5 6,
      where weekStart = "\<lambda>d. d" and groupBy = Month and cid = 1234567 and s = pair_store
        and getTime = example_getTime and toISOString = example_toISOString
        and env = example_env and now = 1704067415000 and nowIso = t215]
  have pd: "period_of (\<lambda>d. d) Day atis_record = ''2024-01-01''"
           "period_of (\<lambda>d. d) Day tower_record = ''2024-01-02''"
           "period_of (\<lambda>d. d) Month atis_record = ''2024-01''"
           "period_of (\<lambda>d. d) Month tower_record = ''2024-01''"
           "hs_durationMinutes tower_record = 30"
    by (simp_all add: period_of_def atis_record_def tower_record_def)
  from d have a: "recalculate_stats [atis_record, tower_record] =
       \<lparr>totalControllerMinutes = 30, totalPilotMinutes = 0,
        totalControllerSessions = 1, totalPilotSessions = 0\<rparr>"
    by (simp add: pd)
  from d have b: "set (getAggregatedStats (\<lambda>d. d) Day [atis_record, tower_record]) =
       {(''2024-01-02'', \<lparr>controllerMinutes = 30, controllerSessions = 1,
                           pilotMinutes = 0, pilotSessions = 0\<rparr>),
        (''2024-01-01'', zero_bucket)}"
    by (simp add: pd)
  from m have c: "set (getAggregatedStats (\<lambda>d. d) Month [atis_record, tower_record]) =
       {(''2024-01'', \<lparr>controllerMinutes = 30, controllerSessions = 1,
                        pilotMinutes = 0, pilotSessions = 0\<rparr>)}"
    by (simp add: pd)
  from d 7 have "mr_totalMinutes (member_sessions example_getTime example_toISOString example_env
        1704067415000 t215 pair_store 1234567) = 2 * hs_durationMinutes tower_record
      \<and> mr_totalSessions (member_sessions example_getTime example_toISOString example_env
        1704067415000 t215 pair_store 1234567) = 2" by blast
  then have e: "mr_totalMinutes (member_sessions example_getTime example_toISOString example_env
        1704067415000 t215 pair_store 1234567) = 60"
    "mr_totalSessions (member_sessions example_getTime example_toISOString example_env
        1704067415000 t215 pair_store 1234567) = 2"
    by (simp_all add: pd)
  from 1 2 3 4 5 a b c 7 e show ?thesis by blast
qed

section \<open>The last callsign of a roster member\<close>

lemma filter_find:
  "(case filter P xs of [] \<Rightarrow> a | y # ys \<Rightarrow> f y) = (case List.find P xs of None \<Rightarrow> a | Some y \<Rightarrow> f y)"
  by (induction xs) auto

lemma findLastNonAtisCallsign_order:
  "findLastNonAtisCallsign env s cid =
     (case List.find (\<lambda>x. cs_type x = Controller \<and> cs_cid x = cid \<and> \<not> is_atis (cs_callsign x))
             (map snd (sessions s)) of
        Some x \<Rightarrow> Some (cs_callsign x)
      | None \<Rightarrow>
         (case List.find (\<lambda>h. hs_type h = Controller \<and> hs_cid h = cid \<and> \<not> is_atis (hs_callsign h))
                 (history s) of
            Some h \<Rightarrow> Some (hs_callsign h)
          | None \<Rightarrow>
             if database_url env \<and> connect_ok env
             then find_latest_controller_row cid (controllerSession (db s)) else None))"
proof -
  have "findLastNonAtisCallsign env s cid =
     (case filter (\<lambda>x. cs_type x = Controller \<and> cs_cid x = cid \<and> \<not> is_atis (cs_callsign x))
             (map snd (sessions s)) of
        [] \<Rightarrow>
         (case filter (\<lambda>h. hs_type h = Controller \<and> hs_cid h = cid \<and> \<not> is_atis (hs_callsign h))
                 (history s) of
            [] \<Rightarrow>
             if database_url env \<and> connect_ok env
             then find_latest_controller_row cid (controllerSession (db s)) else None
          | h # hs \<Rightarrow> Some (hs_callsign h))
      | x # xs \<Rightarrow> Some (cs_callsign x))"
    by (simp add: findLastNonAtisCallsign_def split: list.splits)
  then show ?thesis by (simp only: filter_find)
qed

lemma updateMemberFromLive_atis:
  assumes "r cid = Some m" and "c \<noteq> []" and "is_atis c"
  shows "\<exists>m'. updateMemberFromLive nowIso fetched env s r cid name (Some c) cid = Some m'
           \<and> m_lastCallsign m' =
               (case findLastNonAtisCallsign env s cid of
                  None \<Rightarrow> m_lastCallsign m
                | Some x \<Rightarrow> if x \<noteq> [] then Some x else m_lastCallsign m)"
  using assms
  by (simp add: updateMemberFromLive_def Let_def callsign_non_atis_def callsign_atis_def
      split: option.splits)

text \<open>
  Claim C7 fails on the code where the lookup reaches the database. The query leaves out
  the callsigns that end in the characters \<open>_ATIS\<close> as they are written, while the
  test on the current callsign ignores the case of the letters. The member's open session
  is \<open>opkc_atis\<close>, and the member's rows in the database are an approach session, then
  \<open>opkc_atis\<close>, then \<open>OPKC_ATIS\<close>: the lookup answers \<open>opkc_atis\<close>, and
  \<open>updateMemberFromLive\<close> writes it over the last callsign \<open>OPLA_APP\<close>.
\<close>

theorem last_callsign_overwritten_with_atis:
  "example_roster 1234567 = Some example_member
   \<and> m_lastCallsign example_member = Some ''OPLA_APP''
   \<and> is_atis ''opkc_atis''
   \<and> map ctl_callsign (controllerSession (db lower_atis_store))
       = [''OPLA_APP'', ''opkc_atis'', ''OPKC_ATIS'', ''OPKC_TWR'']
   \<and> find_latest_controller_row 1234567 (controllerSession (db lower_atis_store))
       = Some ''opkc_atis''
   \<and> findLastNonAtisCallsign example_env lower_atis_store 1234567 = Some ''opkc_atis''
   \<and> map_option m_lastCallsign
        (updateMemberFromLive t215 None example_env lower_atis_store example_roster 1234567
           ''New Name'' (Some ''opkc_atis'') 1234567) = Some (Some ''opkc_atis'')"
proof -
  have 1: "example_roster 1234567 = Some example_member" by (simp add: example_roster_def)
  have 2: "m_lastCallsign example_member = Some ''OPLA_APP''" by (simp add: example_member_def)
  have s: "sessions lower_atis_store = [(''atc-opkc_atis'', lower_atis_session)]"
          "history lower_atis_store = []" "db lower_atis_store = backfilled_db"
    by (simp_all add: lower_atis_store_def)
  have 3: "map ctl_callsign (controllerSession (db lower_atis_store))
       = [''OPLA_APP'', ''opkc_atis'', ''OPKC_ATIS'', ''OPKC_TWR'']"
    by (simp add: s backfilled_db_def backfill_row_def)
  have 4: "find_latest_controller_row 1234567 (controllerSession (db lower_atis_store))
       = Some ''opkc_atis''"
    by (simp add: s backfilled_db_def backfill_row_def num_or_null_def
        find_latest_controller_row_def endsWith_def)
  have 5: "findLastNonAtisCallsign example_env lower_atis_store 1234567 = Some ''opkc_atis''"
    using 4 by (simp add: findLastNonAtisCallsign_def s lower_atis_session_def
        is_atis_lower example_env_def)
  have 6: "map_option m_lastCallsign
        (updateMemberFromLive t215 None example_env lower_atis_store example_roster 1234567
           ''New Name'' (Some ''opkc_atis'') 1234567) = Some (Some ''opkc_atis'')"
    by (simp add: updateMemberFromLive_def Let_def 1 callsign_non_atis_def
        callsign_atis_def is_atis_lower 5 example_member_def)
  from 1 2 3 4 5 6 is_atis_lower show ?thesis by blast
qed

section \<open>The live loop\<close>

text \<open>
  Claim C8 fails on the code: a poll that fails makes \<open>runOnce\<close> exit the process
  with status 1, so the loop stops at the first failed cycle and the polls after it are
  never run.
\<close>

theorem live_loop_exits_on_failure:
  "live_loop g env (PollFailed # rest) s = Exited 1 s
   \<and> live_loop example_getTime example_env [PollOk cycle_200, PollFailed, PollOk cycle_215]
        tower_store =
      Exited 1 (r_store (updateSessions example_getTime example_env (cy_now cycle_200)
                  (cy_nowIso cycle_200) (cy_controllers cycle_200) (cy_pilots cycle_200)
                  tower_store))"
  by (simp add: runOnce_def)

end
